theory Spec2Isabelle
  imports Main
begin

section \<open>Strings\<close>

text \<open>
  A Python \<open>str\<close> is modelled as a \<open>string\<close> whose characters are the code points
  below 256. On that range \<open>str.lower\<close> maps \<open>A\<close>..\<open>Z\<close> and the capital letters
  192..222 (but not the multiplication sign 215) to the code point 32 higher and leaves
  everything else alone, and \<open>str.strip\<close> removes the white space 9..13, 28..32, 133
  and 160 from both ends.
\<close>

definition lower_char :: "char \<Rightarrow> char" where
  "lower_char c =
     (let n = (of_char c :: nat)
      in if (65 \<le> n \<and> n \<le> 90) \<or> (192 \<le> n \<and> n \<le> 222 \<and> n \<noteq> 215)
         then char_of (n + 32) else c)"

definition lower :: "string \<Rightarrow> string" where
  "lower s = map lower_char s"

definition is_space :: "char \<Rightarrow> bool" where
  "is_space c =
     (let n = (of_char c :: nat)
      in (9 \<le> n \<and> n \<le> 13) \<or> (28 \<le> n \<and> n \<le> 32) \<or> n = 133 \<or> n = 160)"

definition strip :: "string \<Rightarrow> string" where
  "strip s = rev (dropWhile is_space (rev (dropWhile is_space s)))"

text \<open>\<open>startswith p s\<close> is \<open>s.startswith(p)\<close>; \<open>str_in p s\<close> is Python's \<open>p in s\<close>.\<close>

fun startswith :: "string \<Rightarrow> string \<Rightarrow> bool" where
  "startswith [] s = True"
| "startswith (p # ps) [] = False"
| "startswith (p # ps) (c # cs) = (p = c \<and> startswith ps cs)"

fun str_in :: "string \<Rightarrow> string \<Rightarrow> bool" where
  "str_in p [] = (p = [])"
| "str_in p (c # cs) = (startswith p (c # cs) \<or> str_in p cs)"

section \<open>Configuration and constants\<close>

definition BANNED_KEYWORDS :: "string list" where
  "BANNED_KEYWORDS =
     [''zillow'', ''trulia'', ''redfin'', ''realtor.com'', ''usnews'', ''city-data'',
      ''yelp'', ''fastexpert'', ''facebook'', ''instagram'', ''linkedin'', ''twitter'',
      ''x.com'', ''reddit'', ''fivestarprofessional'', ''realtrends'', ''houzeo'',
      ''effectiveagents'', ''nextdoor'', ''expertise'', ''homelight'', ''homeguide'',
      ''nar.realtor'', ''youtube'', ''thumbtack'', ''topagentmagazine'', ''yellowpages'',
      ''triple'', ''angi'', ''listwithclever'', ''tiktok'', ''movoto'', ''.org'',
      ''experience.com'', ''bankrate'', ''expertise.com'', ''glassdoor'',
      ''biggerpockets'', ''agentproto'', ''landsearch'', ''coldwellbanker'', ''remax'',
      ''sothebys'', ''bhhs'', ''kellerwilliams'', ''kw.com'', ''century21'', ''c21'',
      ''bhgre'', ''era.com'', ''elliman'', ''compass'', ''exprealty'', ''corcoran'',
      ''weichert'', ''howardhanna'', ''longandfoster'', ''realtyexecutives'',
      ''realtyonegroup'', ''homesmart'', ''exitrealty'', ''ratemyagent'', ''sulekha'',
      ''bizjournals'', ''/news/'', ''/money/'', ''/business/'', ''seolium'',
      ''agentpronto'', ''upnest'', ''housecashin'']"

definition AGENT_INDICATORS :: "string list" where
  "AGENT_INDICATORS = [''realtor'', ''real estate agent'', ''team'', ''realty'', ''broker'']"

definition GOOGLE_MAPS :: string where
  "GOOGLE_MAPS = ''google.com/maps''"

section \<open>Domain filter\<close>

text \<open>
  \<open>BANNED_KEYWORDS\<close> is a Python set; \<open>any\<close> over it does not depend on the order in
  which the set is iterated, so the set is listed in the order of the source.
\<close>

definition is_banned_url :: "string \<Rightarrow> bool" where
  "is_banned_url url =
     (let u = lower url
      in if str_in GOOGLE_MAPS u then True
         else list_ex (\<lambda>keyword. str_in keyword u) BANNED_KEYWORDS)"

definition looks_like_agent :: "string \<Rightarrow> bool" where
  "looks_like_agent title =
     (let lower_title = lower title
      in list_ex (\<lambda>indicator. str_in indicator lower_title) AGENT_INDICATORS)"

section \<open>Exceptions\<close>

text \<open>Exceptions are values. \<open>ValueError\<close> is what \<open>min\<close> and \<open>max\<close> raise on an empty
  sequence; \<open>Exception\<close> stands for whatever a collaborator raises, with its
  message.\<close>

datatype error = ValueError | Exception string

section \<open>Page classifier\<close>

text \<open>
  \<open>BeautifulSoup(html, "html.parser")\<close> is the HTML parser, a library outside the
  repository: it is the parameter \<open>parse\<close>, which returns the parsed document or the
  exception that the parser raises on markup it rejects. What \<open>extract_meta_title\<close>
  reads of the parsed document are its tags in document order (the order in which
  \<open>find\<close> visits them), and of each tag its name, its attribute dictionary and its
  \<open>.string\<close> (\<open>None\<close> when the tag has no single text child).
\<close>

record tag =
  tag_name :: string
  attrs :: "string \<rightharpoonup> string"
  tag_string :: "string option"

type_synonym soup = "tag list"

text \<open>\<open>soup.find(name, attrs={attr: val})\<close>: the first tag with that name whose attribute
  \<open>attr\<close> is \<open>val\<close>. \<open>soup.title\<close> is the first tag named \<open>title\<close>.\<close>

definition find_tag :: "soup \<Rightarrow> string \<Rightarrow> string \<Rightarrow> string \<Rightarrow> tag option" where
  "find_tag soup nm attr val = List.find (\<lambda>t. tag_name t = nm \<and> attrs t attr = Some val) soup"

definition soup_title :: "soup \<Rightarrow> tag option" where
  "soup_title soup = List.find (\<lambda>t. tag_name t = ''title'') soup"

text \<open>The test \<open>og and og.get("content")\<close>: a tag was found, and its \<open>content\<close> attribute
  is present and not the empty string. The result is the attribute's value.\<close>

definition truthy_content :: "tag option \<Rightarrow> string option" where
  "truthy_content found =
     (case found of
        None \<Rightarrow> None
      | Some t \<Rightarrow> (case attrs t ''content'' of
                    None \<Rightarrow> None
                  | Some c \<Rightarrow> if c = [] then None else Some c))"

text \<open>The test \<open>soup.title and soup.title.string\<close>.\<close>

definition truthy_string :: "tag option \<Rightarrow> string option" where
  "truthy_string found =
     (case found of
        None \<Rightarrow> None
      | Some t \<Rightarrow> (case tag_string t of
                    None \<Rightarrow> None
                  | Some s \<Rightarrow> if s = [] then None else Some s))"

type_synonym parser = "string \<Rightarrow> error + soup"

definition extract_meta_title :: "parser \<Rightarrow> string \<Rightarrow> error + string option" where
  "extract_meta_title parse html =
     (case parse html of
        Inl err \<Rightarrow> Inl err
      | Inr soup \<Rightarrow>
          (case truthy_content (find_tag soup ''meta'' ''property'' ''og:title'') of
             Some c \<Rightarrow> Inr (Some (strip c))
           | None \<Rightarrow>
               (case truthy_content (find_tag soup ''meta'' ''name'' ''title'') of
                  Some c \<Rightarrow> Inr (Some (strip c))
                | None \<Rightarrow>
                    (case truthy_string (soup_title soup) of
                       Some s \<Rightarrow> Inr (Some (strip s))
                     | None \<Rightarrow> Inr None))))"

section \<open>Data model\<close>

record AgentEntry =
  name :: string
  url :: string
  rank :: int

text \<open>The fields \<open>name\<close> and \<open>url\<close> of the source's \<open>AggregatedEntry\<close> are \<open>agg_name\<close> and
  \<open>agg_url\<close> here: two records cannot share a field name.\<close>

record AggregatedEntry =
  agg_name :: string
  agg_url :: string
  total_score :: int
  best_rank :: int
  worst_rank :: int
  appearance_count :: int

text \<open>
  A dictionary keyed by strings is an association list in insertion order. \<open>key in d\<close>
  is \<open>map_of d key \<noteq> None\<close>, \<open>d[key]\<close> is \<open>map_of d key\<close>, and \<open>d[key] = v\<close> is
  \<open>dict_set key v d\<close>: it replaces the value of a key that is present and appends a key
  that is not.
\<close>

type_synonym 'v dict = "(string \<times> 'v) list"

fun dict_set :: "string \<Rightarrow> 'v \<Rightarrow> 'v dict \<Rightarrow> 'v dict" where
  "dict_set key v [] = [(key, v)]"
| "dict_set key v ((k, x) # d) = (if k = key then (key, v) # d else (k, x) # dict_set key v d)"

section \<open>Query fetcher\<close>

text \<open>
  The collaborators act on the outside world, a state \<open>'w\<close> that every call takes and
  returns. \<open>search w query num\<close> is \<open>list(search(query, region="us", num_results=num,
  sleep_interval=2))\<close>: the list of result URLs, or the exception raised while it was
  produced. \<open>get w url\<close> is \<open>session.get(url, timeout=10)\<close> followed by
  \<open>raise_for_status()\<close>: the response's \<open>text\<close>, or the exception of either call.
\<close>

type_synonym 'w search_provider = "'w \<Rightarrow> string \<Rightarrow> int \<Rightarrow> (error + string list) \<times> 'w"
type_synonym 'w http_get = "'w \<Rightarrow> string \<Rightarrow> (error + string) \<times> 'w"

definition get_search_results ::
    "'w search_provider \<Rightarrow> string \<Rightarrow> int \<Rightarrow> 'w \<Rightarrow> string list \<times> 'w" where
  "get_search_results search query num w =
     (case search w query num of
        (Inr urls, w') \<Rightarrow> (urls, w')
      | (Inl e, w') \<Rightarrow> ([], w'))"

text \<open>\<open>enumerate(xs, start=n)\<close>.\<close>

fun enumerate_from :: "int \<Rightarrow> 'a list \<Rightarrow> (int \<times> 'a) list" where
  "enumerate_from n [] = []"
| "enumerate_from n (x # xs) = (n, x) # enumerate_from (n + 1) xs"

text \<open>
  The body of the loop of \<open>fetch_agents_for_query\<close>, in its two halves. \<open>page_title\<close>
  is the part that ends in \<open>continue\<close> (the value \<open>Inr None\<close>) or with a title: the
  ban, the fetch, the title and the test \<open>not title or not looks_like_agent(title)\<close>.
  The fetch stands in a \<open>try\<close> whose handler continues; the call of
  \<open>extract_meta_title\<close> comes after it, so an exception of the parser is not caught:
  it is the value \<open>Inl\<close>, which ends the loop, the function and its callers.
  \<open>record_entry\<close> is the update of \<open>entries\<close> that follows.
\<close>

definition page_title ::
    "'w http_get \<Rightarrow> parser \<Rightarrow> 'w \<Rightarrow> string \<Rightarrow> (error + string option) \<times> 'w" where
  "page_title get parse w u =
     (if is_banned_url u then (Inr None, w)
      else case get w u of
             (Inl e, w') \<Rightarrow> (Inr None, w')
           | (Inr text, w') \<Rightarrow>
               (case extract_meta_title parse text of
                  Inl err \<Rightarrow> (Inl err, w')
                | Inr None \<Rightarrow> (Inr None, w')
                | Inr (Some title) \<Rightarrow>
                    if title = [] \<or> \<not> looks_like_agent title then (Inr None, w')
                    else (Inr (Some title), w')))"

definition record_entry :: "string \<Rightarrow> string \<Rightarrow> int \<Rightarrow> AgentEntry dict \<Rightarrow> AgentEntry dict" where
  "record_entry title u r entries =
     (let key = lower title
      in case map_of entries key of
           Some e \<Rightarrow> dict_set key (e\<lparr>rank := min (rank e) r\<rparr>) entries
         | None \<Rightarrow> dict_set key \<lparr>name = title, url = u, rank = r\<rparr> entries)"

fun fetch_loop ::
    "'w http_get \<Rightarrow> parser \<Rightarrow> (int \<times> string) list \<Rightarrow> AgentEntry dict \<Rightarrow> 'w
       \<Rightarrow> (error + AgentEntry dict) \<times> 'w" where
  "fetch_loop get parse [] entries w = (Inr entries, w)"
| "fetch_loop get parse ((r, u) # rest) entries w =
     (case page_title get parse w u of
        (Inl err, w') \<Rightarrow> (Inl err, w')
      | (Inr None, w') \<Rightarrow> fetch_loop get parse rest entries w'
      | (Inr (Some title), w') \<Rightarrow>
          fetch_loop get parse rest (record_entry title u r entries) w')"

definition fetch_agents_for_query ::
    "'w search_provider \<Rightarrow> 'w http_get \<Rightarrow> parser \<Rightarrow> string \<Rightarrow> int \<Rightarrow> 'w
       \<Rightarrow> (error + AgentEntry dict) \<times> 'w" where
  "fetch_agents_for_query search get parse query max_results w =
     (case get_search_results search query max_results w of
        (urls, w') \<Rightarrow> fetch_loop get parse (enumerate_from 1 urls) [] w')"

text \<open>
  For the statements about the loop: \<open>seen get parse pairs w\<close> lists, in the order of the
  loop, the rank, URL and title of every result that reaches the update of \<open>entries\<close>;
  it is the parser's exception when the loop ends with one.
\<close>

fun seen ::
    "'w http_get \<Rightarrow> parser \<Rightarrow> (int \<times> string) list \<Rightarrow> 'w
       \<Rightarrow> error + (int \<times> string \<times> string) list" where
  "seen get parse [] w = Inr []"
| "seen get parse ((r, u) # rest) w =
     (case page_title get parse w u of
        (Inl err, w') \<Rightarrow> Inl err
      | (Inr None, w') \<Rightarrow> seen get parse rest w'
      | (Inr (Some title), w') \<Rightarrow>
          (case seen get parse rest w' of
             Inl err \<Rightarrow> Inl err
           | Inr hits \<Rightarrow> Inr ((r, u, title) # hits)))"

section \<open>Aggregator\<close>

text \<open>\<open>min(xs)\<close>, \<open>max(xs)\<close> and \<open>min(xs, key=f)\<close>: the first smallest (largest) element,
  and \<open>ValueError\<close> on an empty sequence.\<close>

fun py_min :: "int list \<Rightarrow> error + int" where
  "py_min [] = Inl ValueError"
| "py_min (x # xs) = Inr (fold (\<lambda>y m. if y < m then y else m) xs x)"

fun py_max :: "int list \<Rightarrow> error + int" where
  "py_max [] = Inl ValueError"
| "py_max (x # xs) = Inr (fold (\<lambda>y m. if y > m then y else m) xs x)"

fun py_min_key :: "('a \<Rightarrow> int) \<Rightarrow> 'a list \<Rightarrow> error + 'a" where
  "py_min_key f [] = Inl ValueError"
| "py_min_key f (x # xs) = Inr (fold (\<lambda>y m. if f y < f m then y else m) xs x)"

text \<open>The inner loop over \<open>query_results\<close>: it extends \<open>ranks\<close> and counts
  \<open>appearances\<close>.\<close>

fun collect_ranks ::
    "string \<Rightarrow> int \<Rightarrow> AgentEntry dict list \<Rightarrow> int list \<times> int \<Rightarrow> int list \<times> int" where
  "collect_ranks key penalty [] (ranks, appearances) = (ranks, appearances)"
| "collect_ranks key penalty (qr # rest) (ranks, appearances) =
     (case map_of qr key of
        Some e \<Rightarrow> collect_ranks key penalty rest (ranks @ [rank e], appearances + 1)
      | None \<Rightarrow> collect_ranks key penalty rest (ranks @ [penalty], appearances))"

text \<open>The generator \<open>(qr[key] for qr in query_results if key in qr)\<close>.\<close>

definition entries_of :: "string \<Rightarrow> AgentEntry dict list \<Rightarrow> AgentEntry list" where
  "entries_of key query_results = List.map_filter (\<lambda>qr. map_of qr key) query_results"

text \<open>The body of the loop over \<open>all_keys\<close>: the entry appended to \<open>aggregated\<close>.\<close>

definition aggregate_key :: "AgentEntry dict list \<Rightarrow> int \<Rightarrow> string \<Rightarrow> error + AggregatedEntry" where
  "aggregate_key query_results penalty key =
     (case collect_ranks key penalty query_results ([], 0) of
        (ranks, appearances) \<Rightarrow>
          (let total = sum_list ranks
           in case py_min ranks of
                Inl err \<Rightarrow> Inl err
              | Inr best \<Rightarrow>
                  (case py_max ranks of
                     Inl err \<Rightarrow> Inl err
                   | Inr worst \<Rightarrow>
                       (case py_min_key rank (entries_of key query_results) of
                          Inl err \<Rightarrow> Inl err
                        | Inr best_entry \<Rightarrow>
                            Inr \<lparr>agg_name = name best_entry, agg_url = url best_entry,
                                 total_score = total, best_rank = best, worst_rank = worst,
                                 appearance_count = appearances\<rparr>))))"

fun aggregate_loop ::
    "AgentEntry dict list \<Rightarrow> int \<Rightarrow> string list \<Rightarrow> AggregatedEntry list
       \<Rightarrow> error + AggregatedEntry list" where
  "aggregate_loop query_results penalty [] aggregated = Inr aggregated"
| "aggregate_loop query_results penalty (key # keys) aggregated =
     (case aggregate_key query_results penalty key of
        Inl err \<Rightarrow> Inl err
      | Inr entry \<Rightarrow> aggregate_loop query_results penalty keys (aggregated @ [entry]))"

text \<open>
  \<open>all_keys = set().union(*query_results)\<close> is a set: the loop visits each of its
  elements once, in an order the language does not fix. The keys are collected
  without repetition and the parameter \<open>set_iter\<close> puts them in the order of the
  iteration; \<open>set_iteration set_iter\<close> says that it only reorders. \<open>sorted\<close> is stable,
  as \<open>sort_key\<close> is.
\<close>

definition union_keys :: "'v dict list \<Rightarrow> string list" where
  "union_keys query_results = remdups (concat (map (map fst) query_results))"

definition set_iteration :: "(string list \<Rightarrow> string list) \<Rightarrow> bool" where
  "set_iteration set_iter \<longleftrightarrow>
     (\<forall>keys. distinct keys \<longrightarrow> distinct (set_iter keys) \<and> set (set_iter keys) = set keys)"

definition aggregate_entries ::
    "(string list \<Rightarrow> string list) \<Rightarrow> AgentEntry dict list \<Rightarrow> int
       \<Rightarrow> error + AggregatedEntry list" where
  "aggregate_entries set_iter query_results penalty =
     (let all_keys = set_iter (union_keys query_results)
      in case aggregate_loop query_results penalty all_keys [] of
           Inl err \<Rightarrow> Inl err
         | Inr aggregated \<Rightarrow> Inr (sort_key total_score aggregated))"

section \<open>Orchestrator\<close>

text \<open>The part of \<open>main\<close> between the parsed arguments and the report: the queries for
  the area, one \<open>fetch_agents_for_query\<close> per query in order, and the aggregation with
  the penalty \<open>results + 1\<close>. Its value is the list \<open>aggregated\<close> that the report prints,
  or the exception that ended it: nothing in \<open>main\<close> catches one.\<close>

definition queries_for :: "string \<Rightarrow> string list" where
  "queries_for area =
     [''best realtors in '' @ area,
      ''best real estate agents in '' @ area,
      ''best real estate agents '' @ area,
      ''best realtor in '' @ area,
      ''top realtors in '' @ area,
      ''top real estate agents in '' @ area,
      ''top real estate agents '' @ area,
      ''top '' @ area @ '' realtors'']"

fun fetch_all ::
    "'w search_provider \<Rightarrow> 'w http_get \<Rightarrow> parser \<Rightarrow> int \<Rightarrow> string list \<Rightarrow> 'w
       \<Rightarrow> (error + AgentEntry dict list) \<times> 'w" where
  "fetch_all search get parse results [] w = (Inr [], w)"
| "fetch_all search get parse results (q # qs) w =
     (case fetch_agents_for_query search get parse q results w of
        (Inl err, w') \<Rightarrow> (Inl err, w')
      | (Inr entries, w') \<Rightarrow>
          (case fetch_all search get parse results qs w' of
             (Inl err, w'') \<Rightarrow> (Inl err, w'')
           | (Inr rest, w'') \<Rightarrow> (Inr (entries # rest), w'')))"

definition main ::
    "'w search_provider \<Rightarrow> 'w http_get \<Rightarrow> parser \<Rightarrow> (string list \<Rightarrow> string list)
       \<Rightarrow> string \<Rightarrow> int \<Rightarrow> 'w \<Rightarrow> (error + AggregatedEntry list) \<times> 'w" where
  "main search get parse set_iter area_arg results w =
     (let area = strip area_arg;
          queries = queries_for area;
          penalty = results + 1
      in case fetch_all search get parse results queries w of
           (Inl err, w') \<Rightarrow> (Inl err, w')
         | (Inr query_results, w') \<Rightarrow>
             (aggregate_entries set_iter query_results penalty, w'))"

section \<open>Notions used in the statements\<close>

text \<open>
  The three sources of a title, in the order in which \<open>extract_meta_title\<close> looks at
  them, each with its content as the document has it (not trimmed): the \<open>content\<close> of
  the first \<open>og:title\<close> meta tag, the \<open>content\<close> of the first meta tag named
  \<open>title\<close>, the string of the first \<open>title\<close> element. \<open>first_nonempty\<close> is the first
  content that is present and not the empty string.
\<close>

definition title_candidates :: "soup \<Rightarrow> string option list" where
  "title_candidates soup =
     [Option.bind (find_tag soup ''meta'' ''property'' ''og:title'') (\<lambda>t. attrs t ''content''),
      Option.bind (find_tag soup ''meta'' ''name'' ''title'') (\<lambda>t. attrs t ''content''),
      Option.bind (soup_title soup) tag_string]"

definition first_nonempty :: "string option list \<Rightarrow> string option" where
  "first_nonempty cands = List.find (\<lambda>c. c \<noteq> []) (List.map_filter id cands)"

text \<open>
  The three sources one by one, and the test that \<open>extract_meta_title\<close> makes of each:
  \<open>blank c\<close> says that the content is absent or the empty string.
\<close>

definition og_title :: "soup \<Rightarrow> string option" where
  "og_title soup =
     Option.bind (find_tag soup ''meta'' ''property'' ''og:title'') (\<lambda>t. attrs t ''content'')"

definition meta_title :: "soup \<Rightarrow> string option" where
  "meta_title soup =
     Option.bind (find_tag soup ''meta'' ''name'' ''title'') (\<lambda>t. attrs t ''content'')"

definition title_text :: "soup \<Rightarrow> string option" where
  "title_text soup = Option.bind (soup_title soup) tag_string"

definition blank :: "string option \<Rightarrow> bool" where
  "blank c = (c = None \<or> c = Some [])"

text \<open>What a query contributes for a key: the rank stored under the key in that query's
  dictionary, and the penalty when the key is not there.\<close>

definition query_value :: "int \<Rightarrow> string \<Rightarrow> AgentEntry dict \<Rightarrow> int" where
  "query_value penalty key qr = (case map_of qr key of Some e \<Rightarrow> rank e | None \<Rightarrow> penalty)"

text \<open>
  A result that reached the update of \<open>entries\<close> is the triple of its rank, its URL and its
  title. \<open>hit_key\<close> is its dictionary key, the lower-cased title, and \<open>record_hit\<close> the
  update of \<open>entries\<close> for it. \<open>seen_in_query\<close> lists the results that reach the update
  in \<open>fetch_agents_for_query\<close>.
\<close>

definition hit_key :: "int \<times> string \<times> string \<Rightarrow> string" where
  "hit_key h = (case h of (r, u, title) \<Rightarrow> lower title)"

definition record_hit :: "int \<times> string \<times> string \<Rightarrow> AgentEntry dict \<Rightarrow> AgentEntry dict" where
  "record_hit h entries = (case h of (r, u, title) \<Rightarrow> record_entry title u r entries)"

definition seen_in_query ::
    "'w search_provider \<Rightarrow> 'w http_get \<Rightarrow> parser \<Rightarrow> string \<Rightarrow> int \<Rightarrow> 'w
       \<Rightarrow> error + (int \<times> string \<times> string) list" where
  "seen_in_query search get parse query max_results w =
     (case get_search_results search query max_results w of
        (urls, w') \<Rightarrow> seen get parse (enumerate_from 1 urls) w')"

section \<open>Example pages and query results\<close>

text \<open>A parser given by a table of the pages it parses; it rejects any other text.\<close>

definition table_parse :: "(string \<times> soup) list \<Rightarrow> parser" where
  "table_parse pages html =
     (case map_of pages html of
        Some soup \<Rightarrow> Inr soup
      | None \<Rightarrow> Inl (Exception ''ParserRejectedMarkup''))"

text \<open>A page whose Open-Graph title is three spaces, and which has a title element.\<close>

definition blank_og_html :: string where
  "blank_og_html =
     ''<meta property=og:title content=\"   \"><title>Jane Doe Realty Team</title>''"

definition blank_og_soup :: soup where
  "blank_og_soup =
     [\<lparr>tag_name = ''meta'', attrs = [''property'' \<mapsto> ''og:title'', ''content'' \<mapsto> ''   ''],
       tag_string = None\<rparr>,
      \<lparr>tag_name = ''title'', attrs = Map.empty, tag_string = Some ''Jane Doe Realty Team''\<rparr>]"

text \<open>A page with an Open-Graph title, a meta title and a title element, all different.\<close>

definition three_titles_html :: string where
  "three_titles_html =
     ''<title>Home</title><meta name=title content=\"Jane Doe\"><meta property=og:title content=\" Jane Doe Realty Team \">''"

definition three_titles_soup :: soup where
  "three_titles_soup =
     [\<lparr>tag_name = ''title'', attrs = Map.empty, tag_string = Some ''Home''\<rparr>,
      \<lparr>tag_name = ''meta'', attrs = [''name'' \<mapsto> ''title'', ''content'' \<mapsto> ''Jane Doe''],
       tag_string = None\<rparr>,
      \<lparr>tag_name = ''meta'',
       attrs = [''property'' \<mapsto> ''og:title'', ''content'' \<mapsto> '' Jane Doe Realty Team ''],
       tag_string = None\<rparr>]"

text \<open>A page without any title.\<close>

definition no_title_html :: string where
  "no_title_html = ''<p>no title</p>''"

definition no_title_soup :: soup where
  "no_title_soup = [\<lparr>tag_name = ''p'', attrs = Map.empty, tag_string = Some ''no title''\<rparr>]"

text \<open>A page with a meta title and a title element, and no Open-Graph title.\<close>

definition meta_title_html :: string where
  "meta_title_html = ''<title>Home</title><meta name=title content=\"Jane Doe\">''"

definition meta_title_soup :: soup where
  "meta_title_soup =
     [\<lparr>tag_name = ''title'', attrs = Map.empty, tag_string = Some ''Home''\<rparr>,
      \<lparr>tag_name = ''meta'', attrs = [''name'' \<mapsto> ''title'', ''content'' \<mapsto> ''Jane Doe''],
       tag_string = None\<rparr>]"

text \<open>A page with two Open-Graph title tags, the first without a \<open>content\<close>, and a title
  element.\<close>

definition two_og_html :: string where
  "two_og_html =
     ''<meta property=og:title><meta property=og:title content=\"Jane Doe Realty Team\"><title>Home</title>''"

definition two_og_soup :: soup where
  "two_og_soup =
     [\<lparr>tag_name = ''meta'', attrs = [''property'' \<mapsto> ''og:title''], tag_string = None\<rparr>,
      \<lparr>tag_name = ''meta'',
       attrs = [''property'' \<mapsto> ''og:title'', ''content'' \<mapsto> ''Jane Doe Realty Team''],
       tag_string = None\<rparr>,
      \<lparr>tag_name = ''title'', attrs = Map.empty, tag_string = Some ''Home''\<rparr>]"

text \<open>Three queries with overlapping results, \<open>{A: 1, B: 2}\<close>, \<open>{A: 2}\<close> and
  \<open>{B: 1, C: 3}\<close>.\<close>

definition three_queries :: "AgentEntry dict list" where
  "three_queries =
     [[(''a team'', \<lparr>name = ''A Team'', url = ''https://a.example/'', rank = 1\<rparr>),
       (''b realty'', \<lparr>name = ''B Realty'', url = ''https://b.example/'', rank = 2\<rparr>)],
      [(''a team'', \<lparr>name = ''A TEAM'', url = ''https://a.example/about'', rank = 2\<rparr>)],
      [(''b realty'', \<lparr>name = ''B Realty'', url = ''https://b.example/'', rank = 1\<rparr>),
       (''c brokers'', \<lparr>name = ''C Brokers'', url = ''https://c.example/'', rank = 3\<rparr>)]]"

text \<open>Two queries: one name at rank 20 in both, another at rank 4 in the first only.\<close>

definition two_queries :: "AgentEntry dict list" where
  "two_queries =
     [[(''x team'', \<lparr>name = ''X Team'', url = ''https://x.example/'', rank = 20\<rparr>),
       (''y realty'', \<lparr>name = ''Y Realty'', url = ''https://y.example/'', rank = 4\<rparr>)],
      [(''x team'', \<lparr>name = ''X Team'', url = ''https://x.example/'', rank = 20\<rparr>)]]"

text \<open>Three queries, one name at rank 1 in the first only.\<close>

definition negative_penalty_queries :: "AgentEntry dict list" where
  "negative_penalty_queries =
     [[(''jane doe team'',
        \<lparr>name = ''Jane Doe Team'', url = ''https://janedoe.example/'', rank = 1\<rparr>)], [], []]"

section \<open>A finite web for the examples\<close>

text \<open>
  The world is the number of requests made so far. The search provider knows the
  results of the queries in its table and fails on every other query; the HTTP
  session knows the pages in its table and fails on every other URL.
\<close>

definition table_search :: "(string \<times> string list) list \<Rightarrow> nat search_provider" where
  "table_search results w query num =
     (case map_of results query of
        Some urls \<Rightarrow> (Inr (take (nat num) urls), w + 1)
      | None \<Rightarrow> (Inl (Exception ''429 Too Many Requests''), w + 1))"

definition table_get :: "(string \<times> string) list \<Rightarrow> nat http_get" where
  "table_get pages w u =
     (case map_of pages u of
        Some text \<Rightarrow> (Inr text, w + 1)
      | None \<Rightarrow> (Inl (Exception ''404 Not Found''), w + 1))"

text \<open>
  Two queries have results. The first finds an aggregator, a team's home page, a dead
  link, a listing site and the team's second page; the last finds another agency and
  the team's home page again.
\<close>

definition demo_results :: "(string \<times> string list) list" where
  "demo_results =
     [(''best realtors in pittsburgh pa'',
       [''https://www.zillow.com/professionals/pittsburgh-pa/'',
        ''https://www.janedoeteam.com/'',
        ''https://www.brokenlink.com/'',
        ''https://www.pittsburghhomes.com/'',
        ''https://www.janedoeteam.com/about'']),
      (''top pittsburgh pa realtors'',
       [''https://www.smithgroup.com/'',
        ''https://www.janedoeteam.com/''])]"

definition demo_pages :: "(string \<times> string) list" where
  "demo_pages =
     [(''https://www.janedoeteam.com/'', ''<html>jane</html>''),
      (''https://www.pittsburghhomes.com/'', ''<html>homes</html>''),
      (''https://www.janedoeteam.com/about'', ''<html>about jane</html>''),
      (''https://www.smithgroup.com/'', ''<html>smith</html>''),
      (''https://www.zillow.com/professionals/pittsburgh-pa/'', ''<html>zillow</html>'')]"

definition demo_soups :: "(string \<times> soup) list" where
  "demo_soups =
     [(''<html>jane</html>'',
       [\<lparr>tag_name = ''meta'',
         attrs = [''property'' \<mapsto> ''og:title'', ''content'' \<mapsto> ''Jane Doe Team''],
         tag_string = None\<rparr>]),
      (''<html>homes</html>'',
       [\<lparr>tag_name = ''title'', attrs = Map.empty,
         tag_string = Some ''Homes for Sale in Pittsburgh''\<rparr>]),
      (''<html>about jane</html>'',
       [\<lparr>tag_name = ''title'', attrs = Map.empty, tag_string = Some ''JANE DOE TEAM''\<rparr>]),
      (''<html>smith</html>'',
       [\<lparr>tag_name = ''meta'',
         attrs = [''name'' \<mapsto> ''title'', ''content'' \<mapsto> ''Smith Realty Group''],
         tag_string = None\<rparr>]),
      (''<html>zillow</html>'',
       [\<lparr>tag_name = ''title'', attrs = Map.empty,
         tag_string = Some ''Real Estate Agents in Pittsburgh''\<rparr>])]"

text \<open>
  A web in which the first query finds the team's home page and then a page whose
  body is \<open><![x y]>\<close>, markup that the parser rejects (it is not in the parser's table).
\<close>

definition malformed_results :: "(string \<times> string list) list" where
  "malformed_results =
     [(''best realtors in pittsburgh pa'',
       [''https://www.janedoeteam.com/'',
        ''https://www.malformed.example/''])]"

definition malformed_pages :: "(string \<times> string) list" where
  "malformed_pages = (''https://www.malformed.example/'', ''<![x y]>'') # demo_pages"

section \<open>Properties of the string operations\<close>

lemma startswith_iff: "startswith p s \<longleftrightarrow> (\<exists>t. s = p @ t)"
  by (induction p s rule: startswith.induct) auto

lemma str_in_iff: "str_in p s \<longleftrightarrow> (\<exists>a b. s = a @ p @ b)"
proof (induction s)
  case Nil
  then show ?case by auto
next
  case (Cons c cs)
  show ?case
  proof
    assume "str_in p (c # cs)"
    then consider "startswith p (c # cs)" | "str_in p cs" by auto
    then show "\<exists>a b. c # cs = a @ p @ b"
    proof cases
      case 1
      then obtain t where "c # cs = p @ t" by (auto simp: startswith_iff)
      then have "c # cs = [] @ p @ t" by simp
      then show ?thesis by blast
    next
      case 2
      then obtain a b where "cs = a @ p @ b" using Cons.IH by blast
      then have "c # cs = (c # a) @ p @ b" by simp
      then show ?thesis by blast
    qed
  next
    assume "\<exists>a b. c # cs = a @ p @ b"
    then obtain a b where ab: "c # cs = a @ p @ b" by blast
    show "str_in p (c # cs)"
    proof (cases a)
      case Nil
      with ab have "startswith p (c # cs)" by (auto simp: startswith_iff)
      then show ?thesis by simp
    next
      case (Cons a0 as)
      with ab have "cs = as @ p @ b" by simp
      then have "str_in p cs" using Cons.IH by blast
      then show ?thesis by simp
    qed
  qed
qed

section \<open>The domain filter\<close>

text \<open>
  C7. \<open>is_banned_url\<close> is a containment test with no failure: it is true exactly when
  the lower-cased URL contains the marker \<open>google.com/maps\<close> or at least one of the
  banned keywords, so it is true for every URL that contains one of them and false
  for a URL that contains none.
\<close>

theorem is_banned_url_iff:
  "is_banned_url u \<longleftrightarrow>
     (\<exists>a b. lower u = a @ GOOGLE_MAPS @ b) \<or>
     (\<exists>keyword \<in> set BANNED_KEYWORDS. \<exists>a b. lower u = a @ keyword @ b)"
  by (simp add: is_banned_url_def Let_def list_ex_iff str_in_iff)

theorem is_banned_url_iff_witness:
  "is_banned_url ''https://www.Zillow.com/pittsburgh-pa/real-estate-agents/'' \<and>
   is_banned_url ''https://www.Google.com/maps/place/Jane+Doe+Realty'' \<and>
   \<not> is_banned_url ''https://www.janedoehomes.com/about''"
proof -
  have z: "lower ''https://www.Zillow.com/pittsburgh-pa/real-estate-agents/'' =
      ''https://www.'' @ ''zillow'' @ ''.com/pittsburgh-pa/real-estate-agents/''"
    by code_simp
  have k: "''zillow'' \<in> set BANNED_KEYWORDS"
    by (simp add: BANNED_KEYWORDS_def)
  have g: "lower ''https://www.Google.com/maps/place/Jane+Doe+Realty'' =
      ''https://www.'' @ GOOGLE_MAPS @ ''/place/jane+doe+realty''"
    by code_simp
  have c: "\<not> ((\<exists>a b. lower ''https://www.janedoehomes.com/about'' = a @ GOOGLE_MAPS @ b) \<or>
      (\<exists>keyword \<in> set BANNED_KEYWORDS.
         \<exists>a b. lower ''https://www.janedoehomes.com/about'' = a @ keyword @ b))"
    unfolding str_in_iff [symmetric] list_ex_iff [symmetric] by code_simp
  from z k have 1: "is_banned_url ''https://www.Zillow.com/pittsburgh-pa/real-estate-agents/''"
    unfolding is_banned_url_iff by blast
  from g have 2: "is_banned_url ''https://www.Google.com/maps/place/Jane+Doe+Realty''"
    unfolding is_banned_url_iff by blast
  from c have 3: "\<not> is_banned_url ''https://www.janedoehomes.com/about''"
    unfolding is_banned_url_iff by blast
  from 1 2 3 show ?thesis by blast
qed

text \<open>
  C10. Every URL whose lower-casing contains \<open>.org\<close> anywhere is banned, whatever
  kind of site it is.
\<close>

theorem dot_org_is_banned:
  "\<exists>a b. lower u = a @ ''.org'' @ b \<Longrightarrow> is_banned_url u"
proof -
  assume "\<exists>a b. lower u = a @ ''.org'' @ b"
  then have "str_in ''.org'' (lower u)"
    by (simp only: str_in_iff)
  moreover have "''.org'' \<in> set BANNED_KEYWORDS"
    by (simp add: BANNED_KEYWORDS_def)
  ultimately have "list_ex (\<lambda>keyword. str_in keyword (lower u)) BANNED_KEYWORDS"
    unfolding list_ex_iff by blast
  then show ?thesis
    by (simp add: is_banned_url_def Let_def)
qed

theorem dot_org_is_banned_witness:
  "lower ''https://www.JaneDoeRealty.ORG/team'' =
     ''https://www.janedoerealty'' @ ''.org'' @ ''/team'' \<and>
   is_banned_url ''https://www.JaneDoeRealty.ORG/team''"
proof -
  have h: "lower ''https://www.JaneDoeRealty.ORG/team'' =
      ''https://www.janedoerealty'' @ ''.org'' @ ''/team''"
    by code_simp
  then have "\<exists>a b. lower ''https://www.JaneDoeRealty.ORG/team'' = a @ ''.org'' @ b"
    by blast
  from dot_org_is_banned [OF this] h show ?thesis by blast
qed

section \<open>The page classifier\<close>

lemma dropWhile_Nil_iff: "dropWhile P xs = [] \<longleftrightarrow> list_all P xs"
  by (induction xs) auto

lemma strip_Nil_iff: "strip s = [] \<longleftrightarrow> list_all is_space s"
proof -
  have "dropWhile is_space (rev (dropWhile is_space s)) = [] \<longleftrightarrow> dropWhile is_space s = []"
  proof (cases "dropWhile is_space s")
    case Nil
    show ?thesis unfolding Nil by simp
  next
    case (Cons c cs)
    then have "\<not> is_space c"
      using hd_dropWhile [of is_space s] by auto
    with Cons show ?thesis
      by (auto simp: dropWhile_Nil_iff)
  qed
  moreover have "strip s = [] \<longleftrightarrow> dropWhile is_space (rev (dropWhile is_space s)) = []"
    by (simp only: strip_def rev_is_Nil_conv)
  ultimately show ?thesis
    by (simp only: dropWhile_Nil_iff)
qed

lemma truthy_content_bind:
  "truthy_content found =
     (case Option.bind found (\<lambda>t. attrs t ''content'') of
        None \<Rightarrow> None
      | Some c \<Rightarrow> if c = [] then None else Some c)"
  by (simp add: truthy_content_def split: option.splits)

lemma truthy_string_bind:
  "truthy_string found =
     (case Option.bind found tag_string of
        None \<Rightarrow> None
      | Some c \<Rightarrow> if c = [] then None else Some c)"
  by (simp add: truthy_string_def split: option.splits)

lemma extract_meta_title_candidates:
  "extract_meta_title parse html =
     (case parse html of
        Inl err \<Rightarrow> Inl err
      | Inr soup \<Rightarrow> Inr (map_option strip (first_nonempty (title_candidates soup))))"
  by (simp add: extract_meta_title_def first_nonempty_def title_candidates_def
      truthy_content_bind truthy_string_bind split: sum.splits option.splits)

text \<open>
  C5, as stated, fails: a page whose Open-Graph title is only white space has the
  empty string as its title, although its title element is not empty. The test for
  emptiness comes before the trimming.
\<close>

theorem extract_meta_title_blank_og:
  "extract_meta_title (table_parse [(blank_og_html, blank_og_soup)]) blank_og_html =
     Inr (Some [])"
  by code_simp

text \<open>
  C5, amended. On a text that the parser rejects, \<open>extract_meta_title\<close> ends with the
  parser's exception. On any other it returns nothing or a trimmed string: the trimmed
  content of the first of the Open-Graph title, the meta title and the title element
  whose content, before trimming, is not empty, and nothing when there is none. The
  result is the empty string exactly when that content is white space only.
\<close>

theorem extract_meta_title_first_untrimmed:
  "extract_meta_title parse html =
     (case parse html of
        Inl err \<Rightarrow> Inl err
      | Inr soup \<Rightarrow> Inr (map_option strip (first_nonempty (title_candidates soup)))) \<and>
   (extract_meta_title parse html = Inr (Some []) \<longleftrightarrow>
     (\<exists>soup c. parse html = Inr soup \<and>
        first_nonempty (title_candidates soup) = Some c \<and> list_all is_space c))"
proof (cases "parse html")
  case (Inl err)
  then show ?thesis
    by (simp add: extract_meta_title_candidates)
next
  case (Inr soup)
  show ?thesis
  proof (cases "first_nonempty (title_candidates soup)")
    case None
    with Inr show ?thesis
      by (simp add: extract_meta_title_candidates)
  next
    case (Some c)
    with Inr show ?thesis
      by (simp add: extract_meta_title_candidates strip_Nil_iff)
  qed
qed

theorem extract_meta_title_first_untrimmed_witness:
  "extract_meta_title
     (table_parse [(three_titles_html, three_titles_soup), (no_title_html, no_title_soup)])
     three_titles_html = Inr (Some ''Jane Doe Realty Team'') \<and>
   first_nonempty (title_candidates three_titles_soup) = Some '' Jane Doe Realty Team '' \<and>
   extract_meta_title
     (table_parse [(three_titles_html, three_titles_soup), (no_title_html, no_title_soup)])
     no_title_html = Inr None \<and>
   extract_meta_title
     (table_parse [(three_titles_html, three_titles_soup), (no_title_html, no_title_soup)])
     ''<![x y]>'' = Inl (Exception ''ParserRejectedMarkup'')"
proof -
  let ?parse = "table_parse [(three_titles_html, three_titles_soup), (no_title_html, no_title_soup)]"
  have p1: "?parse three_titles_html = Inr three_titles_soup"
    by (simp add: table_parse_def three_titles_html_def meta_title_html_def two_og_html_def
      no_title_html_def)
  have p2: "?parse no_title_html = Inr no_title_soup"
    by (simp add: table_parse_def three_titles_html_def meta_title_html_def two_og_html_def
      no_title_html_def)
  have p3: "?parse ''<![x y]>'' = Inl (Exception ''ParserRejectedMarkup'')"
    by (simp add: table_parse_def three_titles_html_def meta_title_html_def two_og_html_def
      no_title_html_def)
  have 1: "first_nonempty (title_candidates three_titles_soup) = Some '' Jane Doe Realty Team ''"
    by code_simp
  have 2: "first_nonempty (title_candidates no_title_soup) = None"
    by code_simp
  have 3: "strip '' Jane Doe Realty Team '' = ''Jane Doe Realty Team''"
    by code_simp
  from extract_meta_title_first_untrimmed [of ?parse three_titles_html] p1 1 3
  have a: "extract_meta_title ?parse three_titles_html = Inr (Some ''Jane Doe Realty Team'')"
    by simp
  from extract_meta_title_first_untrimmed [of ?parse no_title_html] p2 2
  have b: "extract_meta_title ?parse no_title_html = Inr None"
    by simp
  from extract_meta_title_first_untrimmed [of ?parse "''<![x y]>''"] p3
  have c: "extract_meta_title ?parse ''<![x y]>'' = Inl (Exception ''ParserRejectedMarkup'')"
    by simp
  from a 1 b c show ?thesis by blast
qed

lemma title_candidates_sources:
  "title_candidates soup = [og_title soup, meta_title soup, title_text soup]"
  by (simp add: title_candidates_def og_title_def meta_title_def title_text_def)

text \<open>
  C6, as stated, fails: a page can contain an Open-Graph title that is not empty and
  a title element that is not empty, and have the title element's text as its title.
  Only the first \<open>og:title\<close> tag is looked at; here it has no \<open>content\<close>, and the second
  one has.
\<close>

theorem extract_meta_title_second_og:
  "tag_name (two_og_soup ! 1) = ''meta'' \<and>
   attrs (two_og_soup ! 1) ''property'' = Some ''og:title'' \<and>
   attrs (two_og_soup ! 1) ''content'' = Some ''Jane Doe Realty Team'' \<and>
   truthy_string (soup_title two_og_soup) = Some ''Home'' \<and>
   extract_meta_title (table_parse [(two_og_html, two_og_soup)]) two_og_html =
     Inr (Some ''Home'')"
proof -
  have "extract_meta_title (table_parse [(two_og_html, two_og_soup)]) two_og_html =
      Inr (Some ''Home'')"
    by code_simp
  then show ?thesis
    by (simp add: two_og_soup_def soup_title_def truthy_string_def)
qed

text \<open>
  C6, amended. On a text that the parser parses, the title follows the order
  Open-Graph title, meta title, title element, each read from the first tag of its
  kind: when the content of the first \<open>og:title\<close> meta tag is not empty, the result
  is that content, trimmed, whatever the meta title and the title element are (so
  also when the title element is not empty); otherwise, when the content of the first
  meta tag named \<open>title\<close> is not empty, it is that content, trimmed; otherwise, when the
  text of the first title element is not empty, it is that text, trimmed; otherwise
  there is no title.
\<close>

theorem extract_meta_title_priority:
  assumes "parse html = Inr soup"
  shows "extract_meta_title parse html =
      (if \<not> blank (og_title soup) then Inr (map_option strip (og_title soup))
       else if \<not> blank (meta_title soup) then Inr (map_option strip (meta_title soup))
       else if \<not> blank (title_text soup) then Inr (map_option strip (title_text soup))
       else Inr None) \<and>
     (\<forall>c. og_title soup = Some c \<and> c \<noteq> [] \<longrightarrow>
        extract_meta_title parse html = Inr (Some (strip c)))"
proof -
  have eq: "extract_meta_title parse html =
      Inr (map_option strip (first_nonempty [og_title soup, meta_title soup, title_text soup]))"
    using assms by (simp add: extract_meta_title_candidates title_candidates_sources)
  have chain: "extract_meta_title parse html =
      (if \<not> blank (og_title soup) then Inr (map_option strip (og_title soup))
       else if \<not> blank (meta_title soup) then Inr (map_option strip (meta_title soup))
       else if \<not> blank (title_text soup) then Inr (map_option strip (title_text soup))
       else Inr None)"
    unfolding eq
    by (cases "og_title soup"; cases "meta_title soup"; cases "title_text soup")
      (simp_all add: first_nonempty_def blank_def List.map_filter_simps)
  then have "\<forall>c. og_title soup = Some c \<and> c \<noteq> [] \<longrightarrow>
      extract_meta_title parse html = Inr (Some (strip c))"
    by (simp add: blank_def)
  with chain show ?thesis by blast
qed

theorem extract_meta_title_priority_witness:
  "extract_meta_title
     (table_parse [(three_titles_html, three_titles_soup), (meta_title_html, meta_title_soup),
        (two_og_html, two_og_soup), (no_title_html, no_title_soup)])
     three_titles_html = Inr (Some ''Jane Doe Realty Team'') \<and>
   extract_meta_title
     (table_parse [(three_titles_html, three_titles_soup), (meta_title_html, meta_title_soup),
        (two_og_html, two_og_soup), (no_title_html, no_title_soup)])
     meta_title_html = Inr (Some ''Jane Doe'') \<and>
   extract_meta_title
     (table_parse [(three_titles_html, three_titles_soup), (meta_title_html, meta_title_soup),
        (two_og_html, two_og_soup), (no_title_html, no_title_soup)])
     two_og_html = Inr (Some ''Home'') \<and>
   extract_meta_title
     (table_parse [(three_titles_html, three_titles_soup), (meta_title_html, meta_title_soup),
        (two_og_html, two_og_soup), (no_title_html, no_title_soup)])
     no_title_html = Inr None \<and>
   title_text three_titles_soup = Some ''Home''"
proof -
  let ?parse = "table_parse [(three_titles_html, three_titles_soup),
    (meta_title_html, meta_title_soup), (two_og_html, two_og_soup),
    (no_title_html, no_title_soup)]"
  have p1: "?parse three_titles_html = Inr three_titles_soup"
    by (simp add: table_parse_def three_titles_html_def meta_title_html_def two_og_html_def
      no_title_html_def)
  have p2: "?parse meta_title_html = Inr meta_title_soup"
    by (simp add: table_parse_def three_titles_html_def meta_title_html_def two_og_html_def
      no_title_html_def)
  have p3: "?parse two_og_html = Inr two_og_soup"
    by (simp add: table_parse_def three_titles_html_def meta_title_html_def two_og_html_def
      no_title_html_def)
  have p4: "?parse no_title_html = Inr no_title_soup"
    by (simp add: table_parse_def three_titles_html_def meta_title_html_def two_og_html_def
      no_title_html_def)
  have s1: "og_title three_titles_soup = Some '' Jane Doe Realty Team ''"
    "title_text three_titles_soup = Some ''Home''"
    "strip '' Jane Doe Realty Team '' = ''Jane Doe Realty Team''"
    by code_simp+
  have s2: "og_title meta_title_soup = None" "meta_title meta_title_soup = Some ''Jane Doe''"
    "strip ''Jane Doe'' = ''Jane Doe''"
    by code_simp+
  have s3: "og_title two_og_soup = None" "meta_title two_og_soup = None"
    "title_text two_og_soup = Some ''Home''" "strip ''Home'' = ''Home''"
    by code_simp+
  from extract_meta_title_priority [of ?parse three_titles_html three_titles_soup, OF p1] s1
  have a: "extract_meta_title ?parse three_titles_html = Inr (Some ''Jane Doe Realty Team'')"
    by (simp add: blank_def)
  from extract_meta_title_priority [of ?parse meta_title_html meta_title_soup, OF p2] s2
  have b: "extract_meta_title ?parse meta_title_html = Inr (Some ''Jane Doe'')"
    by (simp add: blank_def)
  from extract_meta_title_priority [of ?parse two_og_html two_og_soup, OF p3] s3
  have c: "extract_meta_title ?parse two_og_html = Inr (Some ''Home'')"
    by (simp add: blank_def)
  have d: "extract_meta_title ?parse no_title_html = Inr None"
    by code_simp
  from a b c d s1(2) show ?thesis by blast
qed

section \<open>The aggregator\<close>

lemma collect_ranks_eq:
  "collect_ranks key penalty qrs (ranks, n) =
     (ranks @ map (query_value penalty key) qrs,
      n + int (length (filter (\<lambda>qr. key \<in> dom (map_of qr)) qrs)))"
  by (induction qrs arbitrary: ranks n) (auto simp: query_value_def split: option.splits)

lemma Min_insert_insert:
  "finite S \<Longrightarrow> Min (insert (x::int) (insert a S)) = Min (insert (min a x) S)"
  by (cases "S = {}") (auto simp: min_def)

lemma Max_insert_insert:
  "finite S \<Longrightarrow> Max (insert (x::int) (insert a S)) = Max (insert (max a x) S)"
  by (cases "S = {}") (auto simp: max_def)

lemma fold_min_eq: "fold (\<lambda>y m. if y < m then y else m) xs (x::int) = Min (insert x (set xs))"
proof (induction xs arbitrary: x)
  case Nil
  then show ?case by simp
next
  case (Cons a xs)
  have "fold (\<lambda>y m. if y < m then y else m) (a # xs) x =
      fold (\<lambda>y m. if y < m then y else m) xs (min a x)"
    by (simp add: min_def)
  also have "\<dots> = Min (insert (min a x) (set xs))"
    by (rule Cons.IH)
  also have "\<dots> = Min (insert x (insert a (set xs)))"
    by (rule Min_insert_insert [symmetric]) simp
  finally show ?case
    by (simp only: list.set)
qed

lemma fold_max_eq: "fold (\<lambda>y m. if y > m then y else m) xs (x::int) = Max (insert x (set xs))"
proof (induction xs arbitrary: x)
  case Nil
  then show ?case by simp
next
  case (Cons a xs)
  have "fold (\<lambda>y m. if y > m then y else m) (a # xs) x =
      fold (\<lambda>y m. if y > m then y else m) xs (max a x)"
    by (simp add: max_def)
  also have "\<dots> = Max (insert (max a x) (set xs))"
    by (rule Cons.IH)
  also have "\<dots> = Max (insert x (insert a (set xs)))"
    by (rule Max_insert_insert [symmetric]) simp
  finally show ?case
    by (simp only: list.set)
qed

lemma py_min_eq: "xs \<noteq> [] \<Longrightarrow> py_min xs = Inr (Min (set xs))"
  by (cases xs) (simp_all add: fold_min_eq)

lemma py_max_eq: "xs \<noteq> [] \<Longrightarrow> py_max xs = Inr (Max (set xs))"
  by (cases xs) (simp_all add: fold_max_eq)

lemma py_min_key_Inr: "xs \<noteq> [] \<Longrightarrow> \<exists>x. py_min_key f xs = Inr x"
  by (cases xs) simp_all

lemma entries_of_Nil_iff:
  "entries_of key qrs = [] \<longleftrightarrow> (\<forall>qr \<in> set qrs. key \<notin> dom (map_of qr))"
  by (induction qrs) (auto simp: entries_of_def split: option.splits)

lemma set_union_keys: "set (union_keys qrs) = (\<Union>qr \<in> set qrs. dom (map_of qr))"
  by (auto simp: union_keys_def dom_map_of_conv_image_fst)

lemma aggregate_key_Inr:
  assumes "key \<in> (\<Union>qr \<in> set qrs. dom (map_of qr))"
  shows "\<exists>e. aggregate_key qrs penalty key = Inr e \<and>
     total_score e = sum_list (map (query_value penalty key) qrs) \<and>
     best_rank e = Min (set (map (query_value penalty key) qrs)) \<and>
     worst_rank e = Max (set (map (query_value penalty key) qrs)) \<and>
     appearance_count e = int (length (filter (\<lambda>qr. key \<in> dom (map_of qr)) qrs))"
proof -
  from assms have ne: "qrs \<noteq> []" by auto
  then have r: "map (query_value penalty key) qrs \<noteq> []" by simp
  from assms have "entries_of key qrs \<noteq> []" by (auto simp: entries_of_Nil_iff)
  then obtain b where b: "py_min_key rank (entries_of key qrs) = Inr b"
    using py_min_key_Inr by blast
  show ?thesis
    by (simp add: aggregate_key_def collect_ranks_eq py_min_eq [OF r] py_max_eq [OF r] b)
qed

lemma aggregate_loop_Inr:
  assumes "\<forall>k \<in> set ks. \<exists>e. aggregate_key qrs penalty k = Inr e"
  shows "\<exists>es. aggregate_loop qrs penalty ks acc = Inr (acc @ es) \<and>
     list_all2 (\<lambda>k e. aggregate_key qrs penalty k = Inr e) ks es"
  using assms
proof (induction ks arbitrary: acc)
  case Nil
  then show ?case by simp
next
  case (Cons k ks)
  then obtain e where e: "aggregate_key qrs penalty k = Inr e" by auto
  from Cons obtain es where es: "aggregate_loop qrs penalty ks (acc @ [e]) = Inr ((acc @ [e]) @ es)"
    "list_all2 (\<lambda>k e. aggregate_key qrs penalty k = Inr e) ks es"
    by (metis list.set_intros(2))
  have "aggregate_loop qrs penalty (k # ks) acc = Inr (acc @ (e # es))"
    using e es(1) by simp
  moreover have "list_all2 (\<lambda>k e. aggregate_key qrs penalty k = Inr e) (k # ks) (e # es)"
    using e es(2) by simp
  ultimately show ?case by blast
qed

lemma aggregate_entries_Inr:
  assumes "set_iteration set_iter"
  shows "\<exists>es. aggregate_entries set_iter qrs penalty = Inr (sort_key total_score es) \<and>
     list_all2 (\<lambda>k e. aggregate_key qrs penalty k = Inr e) (set_iter (union_keys qrs)) es \<and>
     distinct (set_iter (union_keys qrs)) \<and>
     set (set_iter (union_keys qrs)) = (\<Union>qr \<in> set qrs. dom (map_of qr))"
proof -
  have d: "distinct (union_keys qrs)" by (simp add: union_keys_def)
  with assms have s: "distinct (set_iter (union_keys qrs))"
    "set (set_iter (union_keys qrs)) = (\<Union>qr \<in> set qrs. dom (map_of qr))"
    by (auto simp: set_iteration_def set_union_keys [symmetric])
  then have "\<forall>k \<in> set (set_iter (union_keys qrs)). \<exists>e. aggregate_key qrs penalty k = Inr e"
    using aggregate_key_Inr [of _ qrs penalty] by blast
  from aggregate_loop_Inr [OF this, of "[]"] obtain es where
    "aggregate_loop qrs penalty (set_iter (union_keys qrs)) [] = Inr es"
    "list_all2 (\<lambda>k e. aggregate_key qrs penalty k = Inr e) (set_iter (union_keys qrs)) es"
    by auto
  with s show ?thesis by (auto simp: aggregate_entries_def Let_def)
qed

lemma list_all2_in_right:
  "list_all2 R ks es \<Longrightarrow> k \<in> set ks \<Longrightarrow> \<exists>e \<in> set es. R k e"
  by (induction rule: list_all2_induct) auto

lemma list_all2_in_left:
  "list_all2 R ks es \<Longrightarrow> e \<in> set es \<Longrightarrow> \<exists>k \<in> set ks. R k e"
  by (induction rule: list_all2_induct) auto

lemma distinct_singleton: "distinct xs \<Longrightarrow> set xs = {k} \<Longrightarrow> xs = [k]"
proof (cases xs)
  case Nil
  assume "set xs = {k}"
  with Nil show ?thesis by simp
next
  case (Cons a as)
  assume "distinct xs" "set xs = {k}"
  with Cons have "a = k" "set as \<subseteq> {k}" "a \<notin> set as" by auto
  then have "as = []" by (cases as) auto
  with \<open>a = k\<close> Cons show ?thesis by simp
qed

text \<open>
  C1. Whatever the order in which the set of keys is iterated, \<open>aggregate_entries\<close>
  returns a list with one entry for each key of the union of the dictionaries' keys:
  the entry's \<open>total_score\<close> is the sum over the queries of the query's stored rank, or
  of the penalty where the key is absent, its \<open>best_rank\<close> and \<open>worst_rank\<close> are the
  minimum and the maximum of those same values, and its \<open>appearance_count\<close> is the
  number of queries that have the key. With penalty 51 and a name at rank 3 in the
  first of three queries, absent from the second and at rank 7 in the third, the
  result is the one entry with total 61, best rank 3, worst rank 51 and 2 appearances.
\<close>

theorem aggregate_entries_scores:
  assumes "set_iteration set_iter"
  shows "(\<exists>aggregated. aggregate_entries set_iter query_results penalty = Inr aggregated \<and>
       length aggregated = card (\<Union>qr \<in> set query_results. dom (map_of qr)) \<and>
       (\<forall>key \<in> (\<Union>qr \<in> set query_results. dom (map_of qr)). \<exists>e \<in> set aggregated.
          total_score e = (\<Sum>qr\<leftarrow>query_results. query_value penalty key qr) \<and>
          best_rank e = Min (set (map (query_value penalty key) query_results)) \<and>
          worst_rank e = Max (set (map (query_value penalty key) query_results)) \<and>
          appearance_count e = int (length [qr\<leftarrow>query_results. key \<in> dom (map_of qr)]))) \<and>
     aggregate_entries set_iter
       [[(k, \<lparr>name = n1, url = u1, rank = 3\<rparr>)], [], [(k, \<lparr>name = n2, url = u2, rank = 7\<rparr>)]] 51 =
       Inr [\<lparr>agg_name = n1, agg_url = u1, total_score = 61, best_rank = 3, worst_rank = 51,
             appearance_count = 2\<rparr>]"
proof
  let ?keys = "\<Union>qr \<in> set query_results. dom (map_of qr)"
  let ?R = "\<lambda>k e. aggregate_key query_results penalty k = Inr e"
  from aggregate_entries_Inr [OF assms, of query_results penalty] obtain es where
    res: "aggregate_entries set_iter query_results penalty = Inr (sort_key total_score es)"
    and all2: "list_all2 ?R (set_iter (union_keys query_results)) es"
    and dist: "distinct (set_iter (union_keys query_results))"
    and keys: "set (set_iter (union_keys query_results)) = ?keys"
    by blast
  have "length es = length (set_iter (union_keys query_results))"
    using all2 by (simp add: list_all2_lengthD)
  also have "\<dots> = card ?keys"
    using dist keys distinct_card by fastforce
  finally have len: "length (sort_key total_score es) = card ?keys" by simp
  have each: "\<exists>e \<in> set (sort_key total_score es).
      total_score e = (\<Sum>qr\<leftarrow>query_results. query_value penalty key qr) \<and>
      best_rank e = Min (set (map (query_value penalty key) query_results)) \<and>
      worst_rank e = Max (set (map (query_value penalty key) query_results)) \<and>
      appearance_count e = int (length [qr\<leftarrow>query_results. key \<in> dom (map_of qr)])"
    if key: "key \<in> ?keys" for key
  proof -
    from key keys have "key \<in> set (set_iter (union_keys query_results))" by simp
    from list_all2_in_right [OF all2 this] obtain e where
      e: "e \<in> set es" "aggregate_key query_results penalty key = Inr e"
      by blast
    from aggregate_key_Inr [OF key, of penalty] e(2) e(1) show ?thesis by auto
  qed
  from res len each
  show "\<exists>aggregated. aggregate_entries set_iter query_results penalty = Inr aggregated \<and>
       length aggregated = card ?keys \<and>
       (\<forall>key \<in> ?keys. \<exists>e \<in> set aggregated.
          total_score e = (\<Sum>qr\<leftarrow>query_results. query_value penalty key qr) \<and>
          best_rank e = Min (set (map (query_value penalty key) query_results)) \<and>
          worst_rank e = Max (set (map (query_value penalty key) query_results)) \<and>
          appearance_count e = int (length [qr\<leftarrow>query_results. key \<in> dom (map_of qr)]))"
    by blast
next
  let ?qrs = "[[(k, \<lparr>name = n1, url = u1, rank = 3\<rparr>)], [], [(k, \<lparr>name = n2, url = u2, rank = 7\<rparr>)]]"
  have uk: "union_keys ?qrs = [k]" by (simp add: union_keys_def)
  from assms have "distinct (set_iter [k])" "set (set_iter [k]) = {k}"
    by (auto simp: set_iteration_def)
  then have it: "set_iter [k] = [k]" by (rule distinct_singleton)
  have "aggregate_key ?qrs 51 k =
      Inr \<lparr>agg_name = n1, agg_url = u1, total_score = 61, best_rank = 3, worst_rank = 51,
           appearance_count = 2\<rparr>"
    by (simp add: aggregate_key_def entries_of_def List.map_filter_simps)
  then show "aggregate_entries set_iter ?qrs 51 =
      Inr [\<lparr>agg_name = n1, agg_url = u1, total_score = 61, best_rank = 3, worst_rank = 51,
            appearance_count = 2\<rparr>]"
    by (simp add: aggregate_entries_def Let_def uk it)
qed

theorem aggregate_entries_scores_witness:
  "set_iteration rev \<and>
   (\<exists>aggregated. aggregate_entries rev three_queries 6 = Inr aggregated \<and>
      length aggregated = 3 \<and>
      (\<exists>e \<in> set aggregated.
         total_score e = 15 \<and> best_rank e = 3 \<and> worst_rank e = 6 \<and> appearance_count e = 1))"
proof -
  let ?keys = "\<Union>qr \<in> set three_queries. dom (map_of qr)"
  have it: "set_iteration rev"
    by (simp add: set_iteration_def)
  have keys: "?keys = {''a team'', ''b realty'', ''c brokers''}"
    by (auto simp: three_queries_def)
  have card: "card {''a team'', ''b realty'', ''c brokers''} = 3"
    by simp
  have vals: "map (query_value 6 ''c brokers'') three_queries = [6, 6, 3]"
    by (simp add: three_queries_def query_value_def)
  have cnt: "[qr\<leftarrow>three_queries. ''c brokers'' \<in> dom (map_of qr)] = [three_queries ! 2]"
    by (simp add: three_queries_def)
  from aggregate_entries_scores [OF it, of three_queries 6] obtain aggregated where
    a: "aggregate_entries rev three_queries 6 = Inr aggregated"
    and l: "length aggregated = card ?keys"
    and b: "\<forall>key \<in> ?keys. \<exists>e \<in> set aggregated.
          total_score e = (\<Sum>qr\<leftarrow>three_queries. query_value 6 key qr) \<and>
          best_rank e = Min (set (map (query_value 6 key) three_queries)) \<and>
          worst_rank e = Max (set (map (query_value 6 key) three_queries)) \<and>
          appearance_count e = int (length [qr\<leftarrow>three_queries. key \<in> dom (map_of qr)])"
    by blast
  have "''c brokers'' \<in> ?keys"
    unfolding keys by simp
  with b obtain e where e: "e \<in> set aggregated"
    "total_score e = sum_list (map (query_value 6 ''c brokers'') three_queries)"
    "best_rank e = Min (set (map (query_value 6 ''c brokers'') three_queries))"
    "worst_rank e = Max (set (map (query_value 6 ''c brokers'') three_queries))"
    "appearance_count e = int (length [qr\<leftarrow>three_queries. ''c brokers'' \<in> dom (map_of qr)])"
    by blast
  have "total_score e = 15" "best_rank e = 3" "worst_rank e = 6" "appearance_count e = 1"
    using e(2-5) unfolding vals cnt by simp_all
  with e(1) a l it show ?thesis
    unfolding keys card by blast
qed

text \<open>
  C2. The list that \<open>aggregate_entries\<close> returns is in ascending order of
  \<open>total_score\<close>: each entry's score is at most the next entry's, and an entry with a
  smaller score (40, say) stands before every entry with a larger one (55).
\<close>

theorem aggregate_entries_sorted:
  assumes "set_iteration set_iter"
  shows "\<exists>aggregated. aggregate_entries set_iter query_results penalty = Inr aggregated \<and>
     (\<forall>i. Suc i < length aggregated \<longrightarrow>
        total_score (aggregated ! i) \<le> total_score (aggregated ! Suc i)) \<and>
     (\<forall>i j. i < length aggregated \<and> j < length aggregated \<and>
        total_score (aggregated ! i) < total_score (aggregated ! j) \<longrightarrow> i < j)"
proof -
  from aggregate_entries_Inr [OF assms, of query_results penalty] obtain es where
    res: "aggregate_entries set_iter query_results penalty = Inr (sort_key total_score es)"
    by blast
  let ?out = "sort_key total_score es"
  have srt: "sorted (map total_score ?out)"
    by (rule sorted_sort_key)
  have mono: "total_score (?out ! i) \<le> total_score (?out ! j)"
    if "i \<le> j" "j < length ?out" for i j
    using sorted_nth_mono [OF srt, of i j] that by simp
  have adj: "\<forall>i. Suc i < length ?out \<longrightarrow> total_score (?out ! i) \<le> total_score (?out ! Suc i)"
    using mono by simp
  have ord: "\<forall>i j. i < length ?out \<and> j < length ?out \<and>
      total_score (?out ! i) < total_score (?out ! j) \<longrightarrow> i < j"
  proof (intro allI impI)
    fix i j
    assume a: "i < length ?out \<and> j < length ?out \<and> total_score (?out ! i) < total_score (?out ! j)"
    show "i < j"
    proof (rule ccontr)
      assume "\<not> i < j"
      then have "j \<le> i" by simp
      with a mono [of j i] show False by simp
    qed
  qed
  from res adj ord show ?thesis by blast
qed

theorem aggregate_entries_sorted_witness:
  "set_iteration rev \<and>
   aggregate_entries rev two_queries 51 =
     Inr [\<lparr>agg_name = ''X Team'', agg_url = ''https://x.example/'', total_score = 40,
           best_rank = 20, worst_rank = 20, appearance_count = 2\<rparr>,
          \<lparr>agg_name = ''Y Realty'', agg_url = ''https://y.example/'', total_score = 55,
           best_rank = 4, worst_rank = 51, appearance_count = 1\<rparr>] \<and>
   (40::int) \<le> 55"
proof -
  have it: "set_iteration rev"
    by (simp add: set_iteration_def)
  have ev: "aggregate_entries rev two_queries 51 =
     Inr [\<lparr>agg_name = ''X Team'', agg_url = ''https://x.example/'', total_score = 40,
           best_rank = 20, worst_rank = 20, appearance_count = 2\<rparr>,
          \<lparr>agg_name = ''Y Realty'', agg_url = ''https://y.example/'', total_score = 55,
           best_rank = 4, worst_rank = 51, appearance_count = 1\<rparr>]"
    by code_simp
  from aggregate_entries_sorted [OF it, of two_queries 51] obtain aggregated where
    a: "aggregate_entries rev two_queries 51 = Inr aggregated"
    and b: "\<forall>i. Suc i < length aggregated \<longrightarrow>
        total_score (aggregated ! i) \<le> total_score (aggregated ! Suc i)"
    by blast
  from a ev have "aggregated = [\<lparr>agg_name = ''X Team'', agg_url = ''https://x.example/'', total_score = 40,
           best_rank = 20, worst_rank = 20, appearance_count = 2\<rparr>,
          \<lparr>agg_name = ''Y Realty'', agg_url = ''https://y.example/'', total_score = 55,
           best_rank = 4, worst_rank = 51, appearance_count = 1\<rparr>]" by simp
  with b have "(40::int) \<le> 55" by fastforce
  with it ev show ?thesis by simp
qed

lemma Min_le_sum_list:
  fixes xs :: "int list"
  assumes "xs \<noteq> []" and "\<forall>x \<in> set xs. 0 \<le> x"
  shows "Min (set xs) \<le> sum_list xs"
proof -
  from assms(1) obtain y ys where xs: "xs = y # ys" by (cases xs) auto
  from assms(2) xs have "0 \<le> sum_list ys"
    by (simp add: sum_list_nonneg)
  then have "y \<le> sum_list xs" using xs by simp
  moreover have "Min (set xs) \<le> y" using xs by simp
  ultimately show ?thesis by linarith
qed

text \<open>
  C9, as stated, fails: \<open>best_rank \<le> total_score\<close> needs values that are not negative.
  With the penalty \<open>- 5\<close> and a name at rank 1 in the first of three queries, the best
  rank is \<open>- 5\<close> and the total is \<open>1 - 5 - 5 = - 9\<close>.
\<close>

theorem aggregate_entries_negative_penalty:
  "negative_penalty_queries \<noteq> [] \<and> set_iteration id \<and>
   aggregate_entries id negative_penalty_queries (- 5) =
     Inr [\<lparr>agg_name = ''Jane Doe Team'', agg_url = ''https://janedoe.example/'',
           total_score = - 9, best_rank = - 5, worst_rank = 1, appearance_count = 1\<rparr>] \<and>
   \<not> best_rank \<lparr>agg_name = ''Jane Doe Team'', agg_url = ''https://janedoe.example/'',
           total_score = - 9, best_rank = - 5, worst_rank = 1, appearance_count = 1\<rparr>
     \<le> total_score \<lparr>agg_name = ''Jane Doe Team'', agg_url = ''https://janedoe.example/'',
           total_score = - 9, best_rank = - 5, worst_rank = 1, appearance_count = 1\<rparr>"
proof -
  have "aggregate_entries id negative_penalty_queries (- 5) =
     Inr [\<lparr>agg_name = ''Jane Doe Team'', agg_url = ''https://janedoe.example/'',
           total_score = - 9, best_rank = - 5, worst_rank = 1, appearance_count = 1\<rparr>]"
    by code_simp
  then show ?thesis
    by (simp add: set_iteration_def negative_penalty_queries_def)
qed

text \<open>
  C9, amended. For a list of queries that is not empty, every entry that
  \<open>aggregate_entries\<close> returns has \<open>best_rank \<le> worst_rank\<close> and an
  \<open>appearance_count\<close> between 1 and the number of queries; and when the penalty and
  all the stored ranks are at least 0, \<open>best_rank \<le> total_score\<close>.
\<close>

theorem aggregate_entries_bounds:
  assumes "query_results \<noteq> []" and "set_iteration set_iter"
  shows "\<exists>aggregated. aggregate_entries set_iter query_results penalty = Inr aggregated \<and>
     (\<forall>e \<in> set aggregated.
        best_rank e \<le> worst_rank e \<and>
        1 \<le> appearance_count e \<and>
        appearance_count e \<le> int (length query_results) \<and>
        (0 \<le> penalty \<and> (\<forall>qr \<in> set query_results. \<forall>a \<in> ran (map_of qr). 0 \<le> rank a)
           \<longrightarrow> best_rank e \<le> total_score e))"
proof -
  let ?keys = "\<Union>qr \<in> set query_results. dom (map_of qr)"
  let ?R = "\<lambda>k e. aggregate_key query_results penalty k = Inr e"
  from aggregate_entries_Inr [OF assms(2), of query_results penalty] obtain es where
    res: "aggregate_entries set_iter query_results penalty = Inr (sort_key total_score es)"
    and all2: "list_all2 ?R (set_iter (union_keys query_results)) es"
    and keys: "set (set_iter (union_keys query_results)) = ?keys"
    by blast
  have each: "best_rank e \<le> worst_rank e \<and>
        1 \<le> appearance_count e \<and>
        appearance_count e \<le> int (length query_results) \<and>
        (0 \<le> penalty \<and> (\<forall>qr \<in> set query_results. \<forall>a \<in> ran (map_of qr). 0 \<le> rank a)
           \<longrightarrow> best_rank e \<le> total_score e)"
    if "e \<in> set (sort_key total_score es)" for e
  proof -
    from that have "e \<in> set es" by simp
    from list_all2_in_left [OF all2 this] keys obtain key where
      key: "key \<in> ?keys" and e: "aggregate_key query_results penalty key = Inr e"
      by auto
    let ?vals = "map (query_value penalty key) query_results"
    from aggregate_key_Inr [OF key, of penalty] e have
      tot: "total_score e = sum_list ?vals" and
      best: "best_rank e = Min (set ?vals)" and
      worst: "worst_rank e = Max (set ?vals)" and
      cnt: "appearance_count e = int (length [qr\<leftarrow>query_results. key \<in> dom (map_of qr)])"
      by auto
    from assms(1) have ne: "?vals \<noteq> []" by simp
    have 1: "best_rank e \<le> worst_rank e"
    proof -
      from ne obtain v where "v \<in> set ?vals" by (cases ?vals) auto
      then have "Min (set ?vals) \<le> v" "v \<le> Max (set ?vals)" by simp_all
      then show ?thesis unfolding best worst by linarith
    qed
    from key have "[qr\<leftarrow>query_results. key \<in> dom (map_of qr)] \<noteq> []"
      by (auto simp: filter_empty_conv)
    then have 2: "1 \<le> appearance_count e"
      unfolding cnt by (cases "[qr\<leftarrow>query_results. key \<in> dom (map_of qr)]") auto
    have 3: "appearance_count e \<le> int (length query_results)"
      unfolding cnt by simp
    have 4: "best_rank e \<le> total_score e"
      if nn: "0 \<le> penalty \<and> (\<forall>qr \<in> set query_results. \<forall>a \<in> ran (map_of qr). 0 \<le> rank a)"
    proof -
      have "0 \<le> query_value penalty key qr" if "qr \<in> set query_results" for qr
        using nn that by (auto simp: query_value_def ran_def split: option.splits)
      then have "\<forall>x \<in> set ?vals. 0 \<le> x" by auto
      from Min_le_sum_list [OF ne this] show ?thesis
        unfolding best tot .
    qed
    from 1 2 3 4 show ?thesis by blast
  qed
  from res each show ?thesis by blast
qed

theorem aggregate_entries_bounds_witness:
  "three_queries \<noteq> [] \<and> set_iteration rev \<and> (0::int) \<le> 6 \<and>
   aggregate_entries rev three_queries 6 = Inr
     [\<lparr>agg_name = ''B Realty'', agg_url = ''https://b.example/'', total_score = 9,
       best_rank = 1, worst_rank = 6, appearance_count = 2\<rparr>,
      \<lparr>agg_name = ''A Team'', agg_url = ''https://a.example/'', total_score = 9,
       best_rank = 1, worst_rank = 6, appearance_count = 2\<rparr>,
      \<lparr>agg_name = ''C Brokers'', agg_url = ''https://c.example/'', total_score = 15,
       best_rank = 3, worst_rank = 6, appearance_count = 1\<rparr>] \<and>
   (\<exists>aggregated. aggregate_entries rev three_queries 6 = Inr aggregated \<and>
      list_all (\<lambda>e. best_rank e \<le> worst_rank e \<and> 1 \<le> appearance_count e \<and>
         appearance_count e \<le> 3 \<and> best_rank e \<le> total_score e) aggregated)"
proof -
  have ne: "three_queries \<noteq> []"
    by (simp add: three_queries_def)
  have it: "set_iteration rev"
    by (simp add: set_iteration_def)
  have nn: "\<forall>qr \<in> set three_queries. \<forall>a \<in> ran (map_of qr). 0 \<le> rank a"
    by (auto simp: three_queries_def ran_def split: if_splits)
  have len: "int (length three_queries) = 3"
    by (simp add: three_queries_def)
  have ev: "aggregate_entries rev three_queries 6 = Inr
     [\<lparr>agg_name = ''B Realty'', agg_url = ''https://b.example/'', total_score = 9,
       best_rank = 1, worst_rank = 6, appearance_count = 2\<rparr>,
      \<lparr>agg_name = ''A Team'', agg_url = ''https://a.example/'', total_score = 9,
       best_rank = 1, worst_rank = 6, appearance_count = 2\<rparr>,
      \<lparr>agg_name = ''C Brokers'', agg_url = ''https://c.example/'', total_score = 15,
       best_rank = 3, worst_rank = 6, appearance_count = 1\<rparr>]"
    by code_simp
  from aggregate_entries_bounds [OF ne it, of 6] nn len
  have "\<exists>aggregated. aggregate_entries rev three_queries 6 = Inr aggregated \<and>
      list_all (\<lambda>e. best_rank e \<le> worst_rank e \<and> 1 \<le> appearance_count e \<and>
         appearance_count e \<le> 3 \<and> best_rank e \<le> total_score e) aggregated"
    by (auto simp: list_all_iff)
  with ne it ev show ?thesis by simp
qed

section \<open>The query fetcher\<close>

lemma map_of_dict_set: "map_of (dict_set k v d) = (map_of d)(k \<mapsto> v)"
  by (induction d) (auto simp: fun_eq_iff)

lemma keys_dict_set: "fst ` set (dict_set k v d) = insert k (fst ` set d)"
  by (simp add: dom_map_of_conv_image_fst [symmetric] map_of_dict_set)

lemma distinct_dict_set: "distinct (map fst d) \<Longrightarrow> distinct (map fst (dict_set k v d))"
proof (induction d)
  case Nil
  then show ?case by simp
next
  case (Cons p d)
  obtain k' x where p: "p = (k', x)" by (cases p)
  show ?case
  proof (cases "k' = k")
    case True
    with Cons.prems p show ?thesis by simp
  next
    case False
    have "k' \<notin> fst ` set (dict_set k v d)"
      using Cons.prems p False by (simp add: keys_dict_set)
    with Cons p False show ?thesis by simp
  qed
qed

lemma fetch_loop_seen:
  "fst (fetch_loop get parse pairs entries w) =
     (case seen get parse pairs w of
        Inl err \<Rightarrow> Inl err
      | Inr hits \<Rightarrow> Inr (fold record_hit hits entries))"
proof (induction pairs arbitrary: entries w)
  case Nil
  then show ?case by simp
next
  case (Cons p pairs)
  obtain r u where p: "p = (r, u)" by (cases p)
  obtain t w' where pt: "page_title get parse w u = (t, w')"
    by (cases "page_title get parse w u")
  show ?case
  proof (cases t)
    case (Inl err)
    with p pt show ?thesis by simp
  next
    case (Inr title)
    show ?thesis
    proof (cases title)
      case None
      with Inr p pt Cons.IH [of entries w'] show ?thesis by simp
    next
      case (Some x)
      with Inr p pt Cons.IH [of "record_entry x u r entries" w'] show ?thesis
        by (simp add: record_hit_def split: sum.splits)
    qed
  qed
qed

lemma map_of_record_entry:
  "map_of (record_entry title u r entries) =
     (map_of entries)(lower title \<mapsto>
        (case map_of entries (lower title) of
           Some e \<Rightarrow> e\<lparr>rank := min (rank e) r\<rparr>
         | None \<Rightarrow> \<lparr>name = title, url = u, rank = r\<rparr>))"
  by (simp add: record_entry_def Let_def map_of_dict_set split: option.splits)

lemma distinct_record_entry:
  "distinct (map fst entries) \<Longrightarrow> distinct (map fst (record_entry title u r entries))"
  by (simp add: record_entry_def Let_def distinct_dict_set split: option.splits)

lemma distinct_fold_record_hit:
  "distinct (map fst entries) \<Longrightarrow> distinct (map fst (fold record_hit hs entries))"
  by (induction hs arbitrary: entries) (auto simp: record_hit_def distinct_record_entry)

lemma Min_insert_min:
  "finite S \<Longrightarrow> Min (insert (min (a::int) r) S) = Min (insert a (insert r S))"
  by (cases "S = {}") (auto simp: min_def)

lemma map_of_fold_record_hit:
  "map_of (fold record_hit hs entries) k =
     (let fs = filter (\<lambda>h. hit_key h = k) hs
      in if fs = [] then map_of entries k
         else (case map_of entries k of
                 Some e \<Rightarrow> Some (e\<lparr>rank := Min (insert (rank e) (set (map fst fs)))\<rparr>)
               | None \<Rightarrow> Some \<lparr>name = snd (snd (hd fs)), url = fst (snd (hd fs)),
                               rank = Min (set (map fst fs))\<rparr>))"
proof (induction hs arbitrary: entries)
  case Nil
  then show ?case by simp
next
  case (Cons h hs)
  obtain r u title where h: "h = (r, u, title)" by (cases h)
  define fs where "fs = filter (\<lambda>h. hit_key h = k) hs"
  let ?es = "record_entry title u r entries"
  have step: "map_of (fold record_hit (h # hs) entries) k = map_of (fold record_hit hs ?es) k"
    by (simp add: h record_hit_def)
  have IH: "map_of (fold record_hit hs ?es) k =
      (if fs = [] then map_of ?es k
       else (case map_of ?es k of
               Some e \<Rightarrow> Some (e\<lparr>rank := Min (insert (rank e) (set (map fst fs)))\<rparr>)
             | None \<Rightarrow> Some \<lparr>name = snd (snd (hd fs)), url = fst (snd (hd fs)),
                             rank = Min (set (map fst fs))\<rparr>))"
    unfolding Cons.IH fs_def Let_def ..
  show ?case
  proof (cases "lower title = k")
    case False
    then have same: "map_of ?es k = map_of entries k"
      by (simp add: map_of_record_entry)
    from False have f: "filter (\<lambda>h. hit_key h = k) (h # hs) = fs"
      by (simp add: h hit_key_def fs_def)
    show ?thesis
      unfolding step IH same f Let_def by simp
  next
    case True
    then have f: "filter (\<lambda>h. hit_key h = k) (h # hs) = (r, u, title) # fs"
      by (simp add: h hit_key_def fs_def)
    show ?thesis
    proof (cases "map_of entries k")
      case None
      then have new: "map_of ?es k = Some \<lparr>name = title, url = u, rank = r\<rparr>"
        using True by (simp add: map_of_record_entry)
      show ?thesis
        unfolding step IH new f Let_def using None by simp
    next
      case (Some e)
      then have new: "map_of ?es k = Some (e\<lparr>rank := min (rank e) r\<rparr>)"
        using True by (simp add: map_of_record_entry)
      show ?thesis
      proof (cases "fs = []")
        case True
        then show ?thesis
          unfolding step IH new f Let_def using Some by simp
      next
        case False
        then show ?thesis
          unfolding step IH new f Let_def using Some
          by (simp add: Min_insert_min del: Min_insert)
      qed
    qed
  qed
qed

lemma fold_record_hit_distinct: "distinct (map fst (fold record_hit hits []))"
  by (rule distinct_fold_record_hit) simp

lemma fold_record_hit_dedup:
  "(case [h\<leftarrow>hits. hit_key h = k] of
      [] \<Rightarrow> map_of (fold record_hit hits []) k = None
    | (r, u, title) # later \<Rightarrow>
        map_of (fold record_hit hits []) k =
          Some \<lparr>name = title, url = u, rank = Min (set (r # map fst later))\<rparr>)"
  unfolding map_of_fold_record_hit Let_def
  by (cases "[h\<leftarrow>hits. hit_key h = k]") auto

lemma fold_record_hit_keys:
  assumes "(k, e) \<in> set (fold record_hit hits [])"
  shows "k = lower (name e)"
proof -
  from assms fold_record_hit_distinct [of hits]
  have m: "map_of (fold record_hit hits []) k = Some e"
    by simp
  show ?thesis
  proof (cases "[h\<leftarrow>hits. hit_key h = k]")
    case Nil
    with fold_record_hit_dedup [of hits k] m show ?thesis by simp
  next
    case (Cons h later)
    obtain r u title where h: "h = (r, u, title)" by (cases h)
    have "h \<in> set [h\<leftarrow>hits. hit_key h = k]"
      unfolding Cons by simp
    then have "lower title = k" by (simp add: h hit_key_def)
    with fold_record_hit_dedup [of hits k] m Cons h show ?thesis by auto
  qed
qed

lemma page_title_error:
  "page_title get parse w u = (Inl err, w') \<Longrightarrow> \<exists>html. parse html = Inl err"
  by (auto simp: page_title_def extract_meta_title_candidates
      split: if_splits prod.splits sum.splits option.splits)

lemma seen_error: "seen get parse pairs w = Inl err \<Longrightarrow> \<exists>html. parse html = Inl err"
proof (induction pairs arbitrary: w)
  case Nil
  then show ?case by simp
next
  case (Cons p pairs)
  obtain r u where p: "p = (r, u)" by (cases p)
  obtain t w' where pt: "page_title get parse w u = (t, w')"
    by (cases "page_title get parse w u")
  show ?case
  proof (cases t)
    case (Inl e)
    with Cons.prems p pt have "page_title get parse w u = (Inl err, w')" by simp
    then show ?thesis by (rule page_title_error)
  next
    case (Inr title)
    with Cons.prems p pt have "seen get parse pairs w' = Inl err"
      by (cases title) (auto split: sum.splits)
    then show ?thesis by (rule Cons.IH)
  qed
qed

text \<open>
  The loop itself, on results numbered out of order: a title seen at rank 5 and later at
  rank 2 is stored with rank 2 and with the name and the URL of the page seen first.
\<close>

lemma fetch_loop_rank_5_then_2:
  "fst (fetch_loop (table_get demo_pages) (table_parse demo_soups)
     [(5, ''https://www.janedoeteam.com/about''), (2, ''https://www.janedoeteam.com/'')] [] 0) =
     Inr [(''jane doe team'',
       \<lparr>name = ''JANE DOE TEAM'', url = ''https://www.janedoeteam.com/about'', rank = 2\<rparr>)]"
  by code_simp

text \<open>
  C3. \<open>fetch_agents_for_query\<close> ends with an exception only when the HTML parser
  raised it; otherwise it returns a dictionary. That dictionary has at most one entry
  for each key, and every key is the lower-cased name of its entry. A key that no seen
  result has is absent; for a key seen at one or several ranks, the entry has the name
  and the URL of the first result seen with that key, and its rank is the minimum of
  the ranks of all the results seen with it.
\<close>

theorem fetch_agents_for_query_dedup:
  "(case fst (fetch_agents_for_query search get parse query max_results w) of
      Inl err \<Rightarrow> \<exists>html. parse html = Inl err
    | Inr entries \<Rightarrow>
        \<exists>hits. seen_in_query search get parse query max_results w = Inr hits \<and>
          distinct (map fst entries) \<and>
          (\<forall>k e. (k, e) \<in> set entries \<longrightarrow> k = lower (name e)) \<and>
          (\<forall>k. case [h\<leftarrow>hits. hit_key h = k] of
             [] \<Rightarrow> map_of entries k = None
           | (r, u, title) # later \<Rightarrow>
               map_of entries k =
                 Some \<lparr>name = title, url = u, rank = Min (set (r # map fst later))\<rparr>))"
proof -
  obtain urls w' where g: "get_search_results search query max_results w = (urls, w')"
    by (cases "get_search_results search query max_results w")
  have f: "fst (fetch_agents_for_query search get parse query max_results w) =
      (case seen get parse (enumerate_from 1 urls) w' of
         Inl err \<Rightarrow> Inl err
       | Inr hits \<Rightarrow> Inr (fold record_hit hits []))"
    by (simp add: fetch_agents_for_query_def g fetch_loop_seen)
  have s: "seen_in_query search get parse query max_results w =
      seen get parse (enumerate_from 1 urls) w'"
    by (simp add: seen_in_query_def g)
  show ?thesis
  proof (cases "seen get parse (enumerate_from 1 urls) w'")
    case (Inl err)
    then have "\<exists>html. parse html = Inl err" by (rule seen_error)
    with Inl show ?thesis unfolding f by simp
  next
    case (Inr hits)
    have "distinct (map fst (fold record_hit hits []))"
      by (rule fold_record_hit_distinct)
    moreover have "\<forall>k e. (k, e) \<in> set (fold record_hit hits []) \<longrightarrow> k = lower (name e)"
      using fold_record_hit_keys by blast
    moreover have "\<forall>k. case [h\<leftarrow>hits. hit_key h = k] of
         [] \<Rightarrow> map_of (fold record_hit hits []) k = None
       | (r, u, title) # later \<Rightarrow>
           map_of (fold record_hit hits []) k =
             Some \<lparr>name = title, url = u, rank = Min (set (r # map fst later))\<rparr>"
      using fold_record_hit_dedup by blast
    ultimately show ?thesis
      unfolding f s Inr by simp
  qed
qed

theorem fetch_agents_for_query_dedup_witness:
  "seen_in_query (table_search demo_results) (table_get demo_pages) (table_parse demo_soups)
     ''best realtors in pittsburgh pa'' 5 0 =
     Inr [(2, ''https://www.janedoeteam.com/'', ''Jane Doe Team''),
          (5, ''https://www.janedoeteam.com/about'', ''JANE DOE TEAM'')] \<and>
   fst (fetch_agents_for_query (table_search demo_results) (table_get demo_pages)
     (table_parse demo_soups) ''best realtors in pittsburgh pa'' 5 0) =
     Inr [(''jane doe team'',
       \<lparr>name = ''Jane Doe Team'', url = ''https://www.janedoeteam.com/'', rank = 2\<rparr>)] \<and>
   map_of [(''jane doe team'',
       \<lparr>name = ''Jane Doe Team'', url = ''https://www.janedoeteam.com/'', rank = 2\<rparr>)]
     ''jane doe team'' =
     Some \<lparr>name = ''Jane Doe Team'', url = ''https://www.janedoeteam.com/'',
       rank = Min (set [2, 5])\<rparr>"
proof -
  let ?search = "table_search demo_results"
  let ?get = "table_get demo_pages"
  let ?parse = "table_parse demo_soups"
  let ?q = "''best realtors in pittsburgh pa''"
  let ?es = "[(''jane doe team'',
       \<lparr>name = ''Jane Doe Team'', url = ''https://www.janedoeteam.com/'', rank = 2\<rparr>)]"
  have s: "seen_in_query ?search ?get ?parse ?q 5 0 =
     Inr [(2, ''https://www.janedoeteam.com/'', ''Jane Doe Team''),
          (5, ''https://www.janedoeteam.com/about'', ''JANE DOE TEAM'')]"
    by code_simp
  have e: "fst (fetch_agents_for_query ?search ?get ?parse ?q 5 0) = Inr ?es"
    by code_simp
  have k: "[h\<leftarrow>[(2, ''https://www.janedoeteam.com/'', ''Jane Doe Team''),
      (5::int, ''https://www.janedoeteam.com/about'', ''JANE DOE TEAM'')].
      hit_key h = ''jane doe team''] =
     [(2, ''https://www.janedoeteam.com/'', ''Jane Doe Team''),
      (5, ''https://www.janedoeteam.com/about'', ''JANE DOE TEAM'')]"
    by code_simp
  from fetch_agents_for_query_dedup [where search = ?search and get = ?get and parse = ?parse
      and query = ?q and max_results = 5 and w = 0]
  have "\<exists>hits. seen_in_query ?search ?get ?parse ?q 5 0 = Inr hits \<and>
      (\<forall>k. case [h\<leftarrow>hits. hit_key h = k] of
         [] \<Rightarrow> map_of ?es k = None
       | (r, u, title) # later \<Rightarrow>
           map_of ?es k =
             Some \<lparr>name = title, url = u, rank = Min (set (r # map fst later))\<rparr>)"
    unfolding e by auto
  then have "\<forall>k. case [h\<leftarrow>[(2, ''https://www.janedoeteam.com/'', ''Jane Doe Team''),
      (5::int, ''https://www.janedoeteam.com/about'', ''JANE DOE TEAM'')]. hit_key h = k] of
         [] \<Rightarrow> map_of ?es k = None
       | (r, u, title) # later \<Rightarrow>
           map_of ?es k =
             Some \<lparr>name = title, url = u, rank = Min (set (r # map fst later))\<rparr>"
    unfolding s by blast
  then have "case [h\<leftarrow>[(2, ''https://www.janedoeteam.com/'', ''Jane Doe Team''),
      (5::int, ''https://www.janedoeteam.com/about'', ''JANE DOE TEAM'')].
        hit_key h = ''jane doe team''] of
         [] \<Rightarrow> map_of ?es ''jane doe team'' = None
       | (r, u, title) # later \<Rightarrow>
           map_of ?es ''jane doe team'' =
             Some \<lparr>name = title, url = u, rank = Min (set (r # map fst later))\<rparr>"
    by (rule spec)
  then have m: "map_of ?es ''jane doe team'' =
     Some \<lparr>name = ''Jane Doe Team'', url = ''https://www.janedoeteam.com/'',
       rank = Min (set [2, 5])\<rparr>"
    unfolding k by (simp del: Min_insert map_of.simps)
  from s e m show ?thesis by blast
qed

lemma set_enumerate_from:
  "(r, u) \<in> set (enumerate_from n xs) \<longleftrightarrow>
     n \<le> r \<and> r < n + int (length xs) \<and> xs ! nat (r - n) = u"
proof (induction xs arbitrary: n)
  case Nil
  then show ?case by auto
next
  case (Cons x xs)
  show ?case
  proof (cases "r = n")
    case True
    then show ?thesis using Cons.IH [of "n + 1"] by auto
  next
    case False
    have "nat (r - n) = Suc (nat (r - (n + 1)))" if "n + 1 \<le> r"
      using that by linarith
    then show ?thesis using False Cons.IH [of "n + 1"] by auto
  qed
qed

lemma sorted_enumerate_from: "sorted_wrt (<) (map fst (enumerate_from n xs))"
proof (induction xs arbitrary: n)
  case Nil
  then show ?case by simp
next
  case (Cons x xs)
  have "n < r" if "(r, u) \<in> set (enumerate_from (n + 1) xs)" for r u
    using that by (simp add: set_enumerate_from)
  with Cons.IH [of "n + 1"] show ?case by auto
qed

lemma seen_subset:
  "seen get parse pairs w = Inr hits \<Longrightarrow> (r, u, t) \<in> set hits \<Longrightarrow> (r, u) \<in> set pairs"
proof (induction pairs arbitrary: w hits)
  case Nil
  then show ?case by simp
next
  case (Cons p pairs)
  obtain r' u' where p: "p = (r', u')" by (cases p)
  obtain x w' where pt: "page_title get parse w u' = (x, w')"
    by (cases "page_title get parse w u'")
  show ?case
  proof (cases x)
    case (Inl err)
    with Cons.prems p pt show ?thesis by simp
  next
    case (Inr title)
    show ?thesis
    proof (cases title)
      case None
      with Inr Cons.prems p pt have "seen get parse pairs w' = Inr hits" by simp
      from Cons.IH [OF this Cons.prems(2)] show ?thesis by simp
    next
      case (Some t')
      with Inr Cons.prems(1) p pt obtain rest where
        rest: "seen get parse pairs w' = Inr rest" and hits: "hits = (r', u', t') # rest"
        by (auto split: sum.splits)
      from Cons.prems(2) hits consider "(r, u, t) = (r', u', t')" | "(r, u, t) \<in> set rest"
        by auto
      then show ?thesis
      proof cases
        case 1
        with p show ?thesis by simp
      next
        case 2
        from Cons.IH [OF rest this] show ?thesis by simp
      qed
    qed
  qed
qed

lemma seen_sorted:
  "sorted_wrt (<) (map fst pairs) \<Longrightarrow> seen get parse pairs w = Inr hits \<Longrightarrow>
     sorted_wrt (<) (map fst hits)"
proof (induction pairs arbitrary: w hits)
  case Nil
  then show ?case by auto
next
  case (Cons p pairs)
  obtain r u where p: "p = (r, u)" by (cases p)
  obtain x w' where pt: "page_title get parse w u = (x, w')"
    by (cases "page_title get parse w u")
  from Cons.prems(1) have tl: "sorted_wrt (<) (map fst pairs)"
    and hd: "\<forall>q \<in> set pairs. r < fst q"
    by (auto simp: p)
  show ?case
  proof (cases x)
    case (Inl err)
    with Cons.prems(2) p pt show ?thesis by simp
  next
    case (Inr title)
    show ?thesis
    proof (cases title)
      case None
      with Inr Cons.prems(2) p pt have "seen get parse pairs w' = Inr hits" by simp
      from Cons.IH [OF tl this] show ?thesis .
    next
      case (Some t)
      with Inr Cons.prems(2) p pt obtain rest where
        rest: "seen get parse pairs w' = Inr rest" and hits: "hits = (r, u, t) # rest"
        by (auto split: sum.splits)
      have "r < fst h" if "h \<in> set rest" for h
      proof -
        obtain r' u' t' where h: "h = (r', u', t')" by (cases h)
        with that have "(r', u', t') \<in> set rest" by simp
        from seen_subset [OF rest this] have "(r', u') \<in> set pairs" .
        with hd h show ?thesis by auto
      qed
      with Cons.IH [OF tl rest] hits show ?thesis by auto
    qed
  qed
qed

lemma Min_sorted_hd:
  fixes xs :: "int list"
  assumes "sorted_wrt (<) xs" and "xs \<noteq> []"
  shows "Min (set xs) = hd xs"
proof -
  from assms(2) obtain x rest where xs: "xs = x # rest" by (cases xs) auto
  with assms(1) have "\<forall>y \<in> set rest. x \<le> y" by auto
  then have "Min (insert x (set rest)) = x"
    by (intro Min_eqI) auto
  with xs show ?thesis by simp
qed

text \<open>
  C4. The rank of every entry is the position, counted from 1, of the entry's URL in
  the sequence that the search provider returned: the results that are skipped
  (banned, not fetched, without a usable title) take their positions with them.
\<close>

theorem fetch_agents_for_query_ranks:
  assumes "search w query max_results = (Inr urls, w')"
    and "fst (fetch_agents_for_query search get parse query max_results w) = Inr entries"
    and "(k, e) \<in> set entries"
  shows "1 \<le> rank e \<and> rank e \<le> int (length urls) \<and> urls ! nat (rank e - 1) = url e"
proof -
  let ?pairs = "enumerate_from 1 urls"
  from assms(1) have f: "fst (fetch_agents_for_query search get parse query max_results w) =
      (case seen get parse ?pairs w' of
         Inl err \<Rightarrow> Inl err
       | Inr hits \<Rightarrow> Inr (fold record_hit hits []))"
    by (simp add: fetch_agents_for_query_def get_search_results_def fetch_loop_seen)
  with assms(2) obtain hits where hits: "seen get parse ?pairs w' = Inr hits"
    and es: "entries = fold record_hit hits []"
    by (auto split: sum.splits)
  let ?fs = "[h\<leftarrow>hits. hit_key h = k]"
  from assms(3) es fold_record_hit_distinct [of hits] have m: "map_of entries k = Some e"
    by simp
  have "sorted_wrt (<) (map fst hits)"
    using seen_sorted [OF sorted_enumerate_from hits] .
  then have srt: "sorted_wrt (<) (map fst ?fs)"
    by (simp add: sorted_wrt_map sorted_wrt_filter)
  show ?thesis
  proof (cases ?fs)
    case Nil
    with fold_record_hit_dedup [of hits k] m es show ?thesis by simp
  next
    case (Cons h later)
    obtain r u title where h: "h = (r, u, title)" by (cases h)
    from srt Cons have "Min (set (map fst ?fs)) = hd (map fst ?fs)"
      by (intro Min_sorted_hd) auto
    with Cons h have mn: "Min (set (r # map fst later)) = r" by simp
    from fold_record_hit_dedup [of hits k] m es Cons h mn
    have e: "e = \<lparr>name = title, url = u, rank = r\<rparr>" by simp
    have "h \<in> set ?fs" unfolding Cons by simp
    then have "(r, u, title) \<in> set hits" by (simp add: h)
    from seen_subset [OF hits this] have "(r, u) \<in> set ?pairs" .
    then have "1 \<le> r \<and> r < 1 + int (length urls) \<and> urls ! nat (r - 1) = u"
      by (simp only: set_enumerate_from)
    with e show ?thesis by simp
  qed
qed

theorem fetch_agents_for_query_ranks_witness:
  "table_search demo_results 0 ''best realtors in pittsburgh pa'' 5 =
     (Inr [''https://www.zillow.com/professionals/pittsburgh-pa/'',
           ''https://www.janedoeteam.com/'',
           ''https://www.brokenlink.com/'',
           ''https://www.pittsburghhomes.com/'',
           ''https://www.janedoeteam.com/about''], 1) \<and>
   fst (fetch_agents_for_query (table_search demo_results) (table_get demo_pages)
     (table_parse demo_soups) ''best realtors in pittsburgh pa'' 5 0) =
     Inr [(''jane doe team'',
       \<lparr>name = ''Jane Doe Team'', url = ''https://www.janedoeteam.com/'', rank = 2\<rparr>)] \<and>
   [''https://www.zillow.com/professionals/pittsburgh-pa/'',
    ''https://www.janedoeteam.com/'',
    ''https://www.brokenlink.com/'',
    ''https://www.pittsburghhomes.com/'',
    ''https://www.janedoeteam.com/about''] ! nat (2 - 1) = ''https://www.janedoeteam.com/''"
proof -
  let ?search = "table_search demo_results"
  let ?get = "table_get demo_pages"
  let ?parse = "table_parse demo_soups"
  let ?q = "''best realtors in pittsburgh pa''"
  let ?urls = "[''https://www.zillow.com/professionals/pittsburgh-pa/'',
           ''https://www.janedoeteam.com/'',
           ''https://www.brokenlink.com/'',
           ''https://www.pittsburghhomes.com/'',
           ''https://www.janedoeteam.com/about'']"
  let ?e = "\<lparr>name = ''Jane Doe Team'', url = ''https://www.janedoeteam.com/'', rank = 2\<rparr>"
  have s: "?search 0 ?q 5 = (Inr ?urls, 1)"
    by code_simp
  have e: "fst (fetch_agents_for_query ?search ?get ?parse ?q 5 0) = Inr [(''jane doe team'', ?e)]"
    by code_simp
  have m: "(''jane doe team'', ?e) \<in> set [(''jane doe team'', ?e)]"
    by simp
  from fetch_agents_for_query_ranks [OF s e m]
  have "?urls ! nat (2 - 1) = ''https://www.janedoeteam.com/''"
    by simp
  with s e show ?thesis by blast
qed

section \<open>The orchestrator\<close>

lemma search_failure_gives_empty:
  "search w query max_results = (Inl e, w') \<Longrightarrow>
     fetch_agents_for_query search get parse query max_results w = (Inr [], w')"
  by (simp add: fetch_agents_for_query_def get_search_results_def)

lemma page_title_returns:
  assumes "\<forall>html. \<exists>soup. parse html = Inr soup"
  shows "\<exists>t w'. page_title get parse w u = (Inr t, w')"
proof (cases "page_title get parse w u")
  case (Pair x w')
  show ?thesis
  proof (cases x)
    case (Inl err)
    with Pair have "page_title get parse w u = (Inl err, w')" by simp
    then have "\<exists>html. parse html = Inl err"
      by (rule page_title_error)
    then obtain html where "parse html = Inl err" ..
    moreover from assms obtain soup where "parse html = Inr soup" by blast
    ultimately show ?thesis by simp
  next
    case (Inr t)
    with Pair show ?thesis by blast
  qed
qed

lemma fetch_loop_returns:
  assumes "\<forall>html. \<exists>soup. parse html = Inr soup"
  shows "\<exists>es w'. fetch_loop get parse pairs entries w = (Inr es, w')"
proof (induction pairs arbitrary: entries w)
  case Nil
  then show ?case by simp
next
  case (Cons p pairs)
  obtain r u where p: "p = (r, u)" by (cases p)
  from page_title_returns [OF assms, of get w u] obtain t w1 where
    pt: "page_title get parse w u = (Inr t, w1)" by blast
  show ?case
  proof (cases t)
    case None
    with Cons.IH [of entries w1] p pt show ?thesis by simp
  next
    case (Some title)
    with Cons.IH [of "record_entry title u r entries" w1] p pt show ?thesis by simp
  qed
qed

lemma fetch_all_returns:
  assumes "\<forall>html. \<exists>soup. parse html = Inr soup"
  shows "\<exists>qrs w'. fetch_all search get parse results qs w = (Inr qrs, w')"
proof (induction qs arbitrary: w)
  case Nil
  then show ?case by simp
next
  case (Cons q qs)
  obtain urls w0 where g: "get_search_results search q results w = (urls, w0)"
    by (cases "get_search_results search q results w")
  from fetch_loop_returns [OF assms, of get "enumerate_from 1 urls" "[]" w0] obtain es w1 where
    "fetch_loop get parse (enumerate_from 1 urls) [] w0 = (Inr es, w1)" by blast
  with g have f: "fetch_agents_for_query search get parse q results w = (Inr es, w1)"
    by (simp add: fetch_agents_for_query_def)
  from Cons.IH [of w1] obtain qrs w2 where
    "fetch_all search get parse results qs w1 = (Inr qrs, w2)" by blast
  with f show ?case by simp
qed

text \<open>
  With a parser that rejects nothing, no failure of a search or of a fetch is
  fatal: \<open>main\<close> ends with a list of aggregated entries.
\<close>

lemma main_returns_when_parser_accepts:
  assumes "set_iteration set_iter" and "\<forall>html. \<exists>soup. parse html = Inr soup"
  shows "\<exists>aggregated w'. main search get parse set_iter area results w = (Inr aggregated, w')"
proof -
  from fetch_all_returns [OF assms(2), of search get results "queries_for (strip area)" w]
  obtain qrs w' where
    f: "fetch_all search get parse results (queries_for (strip area)) w = (Inr qrs, w')"
    by blast
  from aggregate_entries_Inr [OF assms(1), of qrs "results + 1"] obtain aggregated where
    "aggregate_entries set_iter qrs (results + 1) = Inr aggregated" by blast
  with f show ?thesis
    by (simp add: main_def Let_def)
qed

text \<open>
  On the example web six of the eight searches fail, one fetch fails, and the run ends
  with the two names found.
\<close>

lemma main_survives_search_failures:
  "main (table_search demo_results) (table_get demo_pages) (table_parse demo_soups) rev
     ''  pittsburgh pa '' 5 0 =
     (Inr [\<lparr>agg_name = ''Jane Doe Team'', agg_url = ''https://www.janedoeteam.com/'',
            total_score = 40, best_rank = 2, worst_rank = 6, appearance_count = 2\<rparr>,
           \<lparr>agg_name = ''Smith Realty Group'', agg_url = ''https://www.smithgroup.com/'',
            total_score = 43, best_rank = 1, worst_rank = 6, appearance_count = 1\<rparr>], 14)"
  by code_simp

text \<open>
  C8. That every run ends with a ranked list, whatever fails, does not hold of the
  code. A search that fails is contained (the query gets the empty dictionary) and so
  is a fetch that fails, but the title is extracted after the \<open>try\<close> of the fetch:
  when a result's page is markup that the parser rejects, the parser's exception ends
  \<open>fetch_agents_for_query\<close> and \<open>main\<close>, and there is no list.
\<close>

theorem main_parser_exception_is_fatal:
  "table_search malformed_results 0 ''best realtors in pittsburgh pa'' 5 =
     (Inr [''https://www.janedoeteam.com/'', ''https://www.malformed.example/''], 1) \<and>
   table_get malformed_pages 2 ''https://www.malformed.example/'' = (Inr ''<![x y]>'', 3) \<and>
   table_parse demo_soups ''<![x y]>'' = Inl (Exception ''ParserRejectedMarkup'') \<and>
   fetch_agents_for_query (table_search malformed_results) (table_get malformed_pages)
     (table_parse demo_soups) ''best realtors in pittsburgh pa'' 5 0 =
     (Inl (Exception ''ParserRejectedMarkup''), 3) \<and>
   main (table_search malformed_results) (table_get malformed_pages) (table_parse demo_soups)
     rev ''pittsburgh pa'' 5 0 = (Inl (Exception ''ParserRejectedMarkup''), 3)"
proof -
  have 1: "table_search malformed_results 0 ''best realtors in pittsburgh pa'' 5 =
     (Inr [''https://www.janedoeteam.com/'', ''https://www.malformed.example/''], 1)"
    by code_simp
  have 2: "table_get malformed_pages 2 ''https://www.malformed.example/'' =
     (Inr ''<![x y]>'', 3)"
    by code_simp
  have 3: "table_parse demo_soups ''<![x y]>'' = Inl (Exception ''ParserRejectedMarkup'')"
    by (simp add: table_parse_def demo_soups_def)
  have 4: "fetch_agents_for_query (table_search malformed_results) (table_get malformed_pages)
     (table_parse demo_soups) ''best realtors in pittsburgh pa'' 5 0 =
     (Inl (Exception ''ParserRejectedMarkup''), 3)"
    by code_simp
  have 5: "main (table_search malformed_results) (table_get malformed_pages)
     (table_parse demo_soups) rev ''pittsburgh pa'' 5 0 =
     (Inl (Exception ''ParserRejectedMarkup''), 3)"
    by code_simp
  from 1 2 3 4 5 show ?thesis by blast
qed

end
